theory Spec2Isabelle
  imports Main
begin

section \<open>The JDK download script (script/02...jdks.py)\<close>

text \<open>
  The script is one function, \<open>download_jdk(version)\<close>, and a driver \<open>main()\<close> that
  calls it for every version of \<open>range(8, 22)\<close>. Everything the function does is an
  effect: it creates a directory, issues an HTTP GET, tests a path, opens a file, copies
  the response body to it chunk by chunk, and prints what happened. The model makes
  these effects explicit:
  \<^item> the file system is a map from paths to nodes, the working directory being its root;
  \<^item> the network and the operating system's refusals are an environment \<open>env\<close>;
  \<^item> a Python exception is a value of \<open>exn\<close>; a call that may raise returns a sum;
  \<^item> every I/O call and every \<open>print\<close> is appended to a log, in program order.
  Python strings are byte lists (UTF-8), as are file contents.
\<close>

subsection \<open>Strings: \<open>str(int)\<close>, \<open>urllib.parse.unquote\<close>, \<open>Path(...).name\<close>\<close>

type_synonym bytes = string

definition digit :: "nat \<Rightarrow> char" where
  "digit d = char_of (48 + d)"

fun str_nat :: "nat \<Rightarrow> string" where
  "str_nat n = (if n < 10 then [digit n] else str_nat (n div 10) @ [digit (n mod 10)])"

declare str_nat.simps [simp del]

text \<open>\<open>str(version)\<close> as the f-strings \<open>f"jdk{version}"\<close> and the URL use it.\<close>

definition str_int :: "int \<Rightarrow> string" where
  "str_int i = (if i < 0 then CHR ''-'' # str_nat (nat (- i)) else str_nat (nat i))"

definition hexval :: "char \<Rightarrow> nat option" where
  "hexval c =
     (let n = (of_char c :: nat) in
      if 48 \<le> n \<and> n \<le> 57 then Some (n - 48)
      else if 65 \<le> n \<and> n \<le> 70 then Some (n - 55)
      else if 97 \<le> n \<and> n \<le> 102 then Some (n - 87)
      else None)"

text \<open>
  \<open>unquote_to_bytes\<close>: the string is split at \<open>%\<close>; a piece that starts with two hex
  digits contributes the byte and the rest of the piece, any other piece keeps its
  \<open>%\<close>. Read from left to right that is: \<open>%XY\<close> becomes one byte, any other \<open>%\<close>
  stays. A decoded byte is not scanned again.
\<close>

fun unquote_to_bytes :: "string \<Rightarrow> bytes" where
  "unquote_to_bytes [] = []"
| "unquote_to_bytes [c] = [c]"
| "unquote_to_bytes [c, d] = [c, d]"
| "unquote_to_bytes (c # h1 # h2 # rest) =
     (if c = CHR ''%'' then
        (case hexval h1 of
           None \<Rightarrow> c # unquote_to_bytes (h1 # h2 # rest)
         | Some a \<Rightarrow>
             (case hexval h2 of
                None \<Rightarrow> c # unquote_to_bytes (h1 # h2 # rest)
              | Some b \<Rightarrow> char_of (16 * a + b) # unquote_to_bytes rest))
      else c # unquote_to_bytes (h1 # h2 # rest))"

text \<open>
  \<open>bytes.decode('utf-8', errors='replace')\<close>: every maximal ill-formed part is replaced
  by U+FFFD, whose UTF-8 encoding is the three bytes EF BF BD. On a byte list that is
  well-formed UTF-8, in particular on ASCII, it is the identity.
\<close>

definition replacement :: bytes where
  "replacement = [char_of (239::nat), char_of (191::nat), char_of (189::nat)]"

definition is_cont :: "char \<Rightarrow> bool" where
  "is_cont c = (128 \<le> (of_char c :: nat) \<and> (of_char c :: nat) < 192)"

text \<open>The second byte of a three- or four-byte sequence, after the lead byte \<open>l\<close>.\<close>

definition second_ok :: "nat \<Rightarrow> char \<Rightarrow> bool" where
  "second_ok l c =
     (let b = (of_char c :: nat) in
      is_cont c \<and>
      (if l = 224 then 160 \<le> b
       else if l = 237 then b < 160
       else if l = 240 then 144 \<le> b
       else if l = 244 then b < 144
       else True))"

fun utf8_replace :: "bytes \<Rightarrow> bytes" where
  "utf8_replace [] = []"
| "utf8_replace (c # cs) =
     (if (of_char c :: nat) < 128 then c # utf8_replace cs
      else if (of_char c :: nat) < 194 \<or> 245 \<le> (of_char c :: nat)
        then replacement @ utf8_replace cs
      else if (of_char c :: nat) < 224 then
        (case cs of
           [] \<Rightarrow> replacement
         | c2 # r2 \<Rightarrow>
             if is_cont c2 then c # c2 # utf8_replace r2
             else replacement @ utf8_replace cs)
      else if (of_char c :: nat) < 240 then
        (case cs of
           [] \<Rightarrow> replacement
         | c2 # r2 \<Rightarrow>
             if \<not> second_ok (of_char c) c2 then replacement @ utf8_replace cs
             else
               (case r2 of
                  [] \<Rightarrow> replacement
                | c3 # r3 \<Rightarrow>
                    if is_cont c3 then c # c2 # c3 # utf8_replace r3
                    else replacement @ utf8_replace r2))
      else
        (case cs of
           [] \<Rightarrow> replacement
         | c2 # r2 \<Rightarrow>
             if \<not> second_ok (of_char c) c2 then replacement @ utf8_replace cs
             else
               (case r2 of
                  [] \<Rightarrow> replacement
                | c3 # r3 \<Rightarrow>
                    if \<not> is_cont c3 then replacement @ utf8_replace r2
                    else
                      (case r3 of
                         [] \<Rightarrow> replacement
                       | c4 # r4 \<Rightarrow>
                           if is_cont c4 then c # c2 # c3 # c4 # utf8_replace r4
                           else replacement @ utf8_replace r3))))"

text \<open>
  \<open>unquote(string)\<close>: a string without \<open>%\<close> is returned as it is; otherwise the escapes
  are decoded to bytes and the bytes to text, with replacement.
\<close>

definition unquote :: "string \<Rightarrow> string" where
  "unquote s = (if CHR ''%'' \<notin> set s then s else utf8_replace (unquote_to_bytes s))"

text \<open>\<open>s.split(sep)\<close> for a one-character separator.\<close>

fun split_sep :: "char \<Rightarrow> string \<Rightarrow> string list" where
  "split_sep sep [] = [[]]"
| "split_sep sep (c # cs) =
     (if c = sep then [] # split_sep sep cs
      else (case split_sep sep cs of
              [] \<Rightarrow> [[c]]
            | x # xs \<Rightarrow> (c # x) # xs))"

text \<open>
  \<open>Path(s).parts\<close> without the root: pathlib splits at \<open>/\<close> and drops the empty
  components and the components \<open>.\<close> (it keeps \<open>..\<close>). \<open>Path(s).name\<close> is the last
  component, or the empty string when there is none.
\<close>

definition path_parts :: "string \<Rightarrow> string list" where
  "path_parts s = filter (\<lambda>x. x \<noteq> [] \<and> x \<noteq> ''.'') (split_sep CHR ''/'' s)"

definition path_name :: "string \<Rightarrow> string" where
  "path_name s = (case path_parts s of [] \<Rightarrow> [] | x # xs \<Rightarrow> last (x # xs))"

subsection \<open>The file system\<close>

text \<open>
  A path is the list of its components, relative to the working directory, which is
  the root \<open>[]\<close> of the model and always a directory. A node is a directory or a regular
  file with its content.
\<close>

type_synonym path = "string list"

datatype node = Dir | File bytes

type_synonym fs = "path \<rightharpoonup> node"

datatype os_error = EEXIST | ENOENT | ENOTDIR | EISDIR | EACCES | ENOSPC | ENAMETOOLONG

datatype syscall = SysMkdir path | SysOpen path | SysWrite path nat

datatype net_error =
  ConnectionError | Timeout | TooManyRedirects | ChunkedEncodingError | ContentDecodingError

text \<open>
  The exceptions of the program. \<open>HTTPError\<close> (with the status of its response) is raised
  by \<open>raise_for_status\<close> only; \<open>RequestException\<close> stands for every other subclass of
  \<open>requests.exceptions.RequestException\<close>; \<open>OSError\<close>, \<open>ValueError\<close> and
  \<open>OverflowError\<close> are subclasses of \<open>Exception\<close> that are no \<open>RequestException\<close>.
\<close>

datatype exn =
  HTTPError nat | RequestException net_error | OSError os_error | ValueError | OverflowError

text \<open>
  What \<open>int(...)\<close> makes of the text of a header: an integer, or \<open>ValueError\<close>.
\<close>

datatype header_int = IntValue int | NotAnInt

text \<open>
  The response of \<open>requests.get(..., stream=True, allow_redirects=True)\<close>: the status
  and the URL of the last response of the redirect chain, its \<open>content-length\<close> header
  as \<open>int\<close> reads it (\<open>None\<close> when the header is absent), the body as the connection
  delivers it, in segments, and the error that ends the body early, if any.
\<close>

record response =
  status_code :: nat
  url :: string
  content_length :: "header_int option"
  raw :: "bytes list"
  raw_error :: "net_error option"

text \<open>
  The environment: what a GET of a URL gives (an exception of the transport, or a
  response), and which creating or writing system calls the operating system refuses
  (permissions, a full disk, a name too long). \<open>SysWrite p i\<close> is the write of the
  chunk number \<open>i\<close> to the file \<open>p\<close>.
\<close>

record env =
  http_get :: "string \<Rightarrow> net_error + response"
  os_fault :: "syscall \<Rightarrow> os_error option"

definition node_at :: "fs \<Rightarrow> path \<Rightarrow> node option" where
  "node_at fs p = (if p = [] then Some Dir else fs p)"

text \<open>
  Path resolution from the directory \<open>cur\<close>: every component is looked up in a
  directory, \<open>..\<close> goes to the parent (the root is its own parent). The result is the
  path without \<open>..\<close> of the entry named, which may or may not exist; \<open>None\<close> when a
  component on the way is not a directory.
\<close>

fun canon :: "fs \<Rightarrow> path \<Rightarrow> string list \<Rightarrow> path option" where
  "canon fs cur [] = Some cur"
| "canon fs cur (c # cs) =
     (if node_at fs cur = Some Dir
      then (if c = ''..'' then canon fs (butlast cur) cs else canon fs (cur @ [c]) cs)
      else None)"

definition stat :: "fs \<Rightarrow> path \<Rightarrow> node option" where
  "stat fs p = (case canon fs [] p of None \<Rightarrow> None | Some q \<Rightarrow> node_at fs q)"

text \<open>\<open>Path.exists()\<close> and \<open>Path.is_dir()\<close>.\<close>

definition path_exists :: "fs \<Rightarrow> path \<Rightarrow> bool" where
  "path_exists fs p = (stat fs p \<noteq> None)"

definition path_is_dir :: "fs \<Rightarrow> path \<Rightarrow> bool" where
  "path_is_dir fs p = (stat fs p = Some Dir)"

text \<open>
  \<open>os.mkdir(p)\<close>, for a path without \<open>..\<close> (the directory paths of this program have
  none): the parent must be a directory and the entry must be absent.
\<close>

definition os_mkdir :: "env \<Rightarrow> fs \<Rightarrow> path \<Rightarrow> os_error + fs" where
  "os_mkdir env fs p =
     (if p = [] then Inl EEXIST
      else
        (case node_at fs (butlast p) of
           None \<Rightarrow> Inl ENOENT
         | Some (File c) \<Rightarrow> Inl ENOTDIR
         | Some Dir \<Rightarrow>
             (case fs p of
                Some n \<Rightarrow> Inl EEXIST
              | None \<Rightarrow>
                  (case os_fault env (SysMkdir p) of
                     Some e \<Rightarrow> Inl e
                   | None \<Rightarrow> Inr (fs(p \<mapsto> Dir))))))"

text \<open>
  \<open>Path.mkdir(parents=..., exist_ok=True)\<close> as pathlib writes it: \<open>os.mkdir\<close> is tried;
  on \<open>FileNotFoundError\<close>, with \<open>parents\<close> set and a parent other than the path itself,
  the parent is made (with \<open>parents=True\<close>) and the directory is made again with
  \<open>parents=False\<close>; any other \<open>OSError\<close> is swallowed if the path is a directory and
  raised again otherwise.
\<close>

function path_mkdir :: "env \<Rightarrow> bool \<Rightarrow> fs \<Rightarrow> path \<Rightarrow> os_error + fs" where
  "path_mkdir env parents fs p =
     (case os_mkdir env fs p of
        Inr fs' \<Rightarrow> Inr fs'
      | Inl e \<Rightarrow>
          if e = ENOENT then
            (if parents \<and> p \<noteq> [] then
               (case path_mkdir env True fs (butlast p) of
                  Inl e' \<Rightarrow> Inl e'
                | Inr fs1 \<Rightarrow> path_mkdir env False fs1 p)
             else Inl e)
          else if path_is_dir fs p then Inr fs
          else Inl e)"
  by pat_completeness auto
termination
  by (relation "measure (\<lambda>(env, parents, fs, p). 2 * length p + (if parents then 1 else 0))")
     auto

declare path_mkdir.simps [simp del]

text \<open>
  \<open>open(p, 'wb')\<close>: the file is created if it is absent and truncated if it exists; a
  directory cannot be opened for writing. The result is the path of the open file and
  the new file system.
\<close>

definition open_wb :: "env \<Rightarrow> fs \<Rightarrow> path \<Rightarrow> os_error + (path \<times> fs)" where
  "open_wb env fs p =
     (case canon fs [] p of
        None \<Rightarrow> Inl ENOENT
      | Some q \<Rightarrow>
          (case node_at fs q of
             Some Dir \<Rightarrow> Inl EISDIR
           | _ \<Rightarrow>
               (case os_fault env (SysOpen q) of
                  Some e \<Rightarrow> Inl e
                | None \<Rightarrow> Inr (q, fs(q \<mapsto> File [])))))"

text \<open>\<open>f.write(chunk)\<close> on the open file \<open>q\<close>: the chunk is appended.\<close>

definition file_content :: "fs \<Rightarrow> path \<Rightarrow> bytes" where
  "file_content fs q = (case fs q of Some (File old) \<Rightarrow> old | _ \<Rightarrow> [])"

definition append_file :: "fs \<Rightarrow> path \<Rightarrow> bytes \<Rightarrow> fs" where
  "append_file fs q chunk = fs(q \<mapsto> File (file_content fs q @ chunk))"

subsection \<open>Messages, the log and the world\<close>

text \<open>
  The messages the script prints, one constructor per \<open>print\<close> call of the source:
  the rule of dashes and the two heading lines of \<open>main\<close>, its closing line, and the
  messages of \<open>download_jdk\<close> in source order (lines 34, 35, 51, 57, 58, 73, 77, 79, 81
  and 83). The messages of the \<open>except\<close> clauses carry the exception they print.
\<close>

datatype message =
    MsgRule
  | MsgStart
  | MsgLayout
  | MsgAllDone
  | MsgProcessing int path
  | MsgRequest string
  | MsgExists path
  | MsgPrepare string int
  | MsgSaveTo path
  | MsgDone path
  | MsgNotFound int
  | MsgHttpError int exn
  | MsgNetworkFailed int exn
  | MsgUnknownError int exn

text \<open>
  What the log records: a \<open>mkdir\<close> that returned, a \<open>requests.get\<close> that was issued,
  a call of \<open>exists\<close>, an \<open>open\<close> that returned a file, a chunk of so many bytes
  handed over by \<open>iter_content\<close>, \<open>f.write\<close> of so many bytes, \<open>bar.update\<close> with
  its argument, and \<open>print\<close>.
\<close>

datatype event =
    Mkdir path
  | Get string
  | Stat path
  | Opened path
  | Chunk nat
  | Write path nat
  | BarUpdate nat
  | Print message

record world =
  files :: fs
  log :: "event list"

definition emit :: "event \<Rightarrow> world \<Rightarrow> world" where
  "emit e w = w\<lparr>log := log w @ [e]\<rparr>"

subsection \<open>Configuration\<close>

definition JDK_VERSIONS :: "int list" where
  "JDK_VERSIONS = map int [8..<22]"

definition OS_TYPE :: string where "OS_TYPE = ''linux''"
definition ARCH_TYPE :: string where "ARCH_TYPE = ''x64''"
definition IMAGE_TYPE :: string where "IMAGE_TYPE = ''jdk''"
definition JVM_IMPL :: string where "JVM_IMPL = ''hotspot''"
definition HEAP_SIZE :: string where "HEAP_SIZE = ''normal''"
definition VENDOR :: string where "VENDOR = ''eclipse''"
definition RELEASE_TYPE :: string where "RELEASE_TYPE = ''ga''"

definition CHUNK_SIZE :: nat where "CHUNK_SIZE = 8192"

subsection \<open>\<open>download_jdk\<close>\<close>

text \<open>\<open>Path(f"jdk{version}")\<close>.\<close>

definition version_dir_of :: "int \<Rightarrow> path" where
  "version_dir_of version = path_parts (''jdk'' @ str_int version)"

definition api_url_of :: "int \<Rightarrow> string" where
  "api_url_of version =
     ''https://api.adoptium.net/v3/binary/latest/'' @ str_int version @ ''/'' @
     RELEASE_TYPE @ ''/'' @ OS_TYPE @ ''/'' @ ARCH_TYPE @ ''/'' @ IMAGE_TYPE @ ''/'' @
     JVM_IMPL @ ''/'' @ HEAP_SIZE @ ''/'' @ VENDOR"

text \<open>\<open>r.raise_for_status()\<close>: \<open>HTTPError\<close> for a status from 400 to 599.\<close>

definition raise_for_status :: "response \<Rightarrow> exn option" where
  "raise_for_status r =
     (if 400 \<le> status_code r \<and> status_code r < 600
      then Some (HTTPError (status_code r)) else None)"

text \<open>\<open>version_dir / filename\<close>: the components of the right operand are appended.\<close>

definition path_join :: "path \<Rightarrow> string \<Rightarrow> path" where
  "path_join d name = d @ path_parts name"

text \<open>\<open>int(r.headers.get('content-length', 0))\<close>.\<close>

definition total_size_of :: "response \<Rightarrow> exn + int" where
  "total_size_of r =
     (case content_length r of
        None \<Rightarrow> Inr 0
      | Some (IntValue n) \<Rightarrow> Inr n
      | Some NotAnInt \<Rightarrow> Inl ValueError)"

text \<open>
  The message of line 57 formats \<open>total_size / (1024*1024)\<close>. The true division of
  integers raises \<open>OverflowError\<close> when the correctly rounded quotient is no float,
  that is when it reaches \<open>2^1024 - 2^970\<close>.
\<close>

definition division_overflows :: "int \<Rightarrow> bool" where
  "division_overflows n = (2 ^ 1044 - 2 ^ 990 \<le> \<bar>n\<bar>)"

text \<open>
  \<open>r.iter_content(chunk_size)\<close> on a streamed response: every segment the connection
  delivers is handed over in pieces of at most \<open>chunk_size\<close> bytes, none of them empty;
  the error of the stream, if any, is raised after the last piece.
\<close>

function chunks_of :: "nat \<Rightarrow> bytes \<Rightarrow> bytes list" where
  "chunks_of n bs = (if n = 0 \<or> bs = [] then [] else take n bs # chunks_of n (drop n bs))"
  by pat_completeness auto
termination
  by (relation "measure (\<lambda>(n, bs). length bs)") auto

declare chunks_of.simps [simp del]

definition iter_content :: "nat \<Rightarrow> response \<Rightarrow> bytes list \<times> net_error option" where
  "iter_content chunk_size r = (concat (map (chunks_of chunk_size) (raw r)), raw_error r)"

text \<open>
  The loop of lines 69 to 71 on the open file \<open>q\<close>, from the chunk number \<open>i\<close>, with the
  counter of the progress bar. A write the system refuses raises \<open>OSError\<close>.
\<close>

fun write_chunks ::
  "env \<Rightarrow> path \<Rightarrow> nat \<Rightarrow> bytes list \<Rightarrow> world \<Rightarrow> nat \<Rightarrow> exn option \<times> world \<times> nat" where
  "write_chunks env q i [] w bar = (None, w, bar)"
| "write_chunks env q i (chunk # rest) w bar =
     (case os_fault env (SysWrite q i) of
        Some e \<Rightarrow> (Some (OSError e), emit (Chunk (length chunk)) w, bar)
      | None \<Rightarrow>
          write_chunks env q (Suc i) rest
            (emit (BarUpdate (length chunk))
               (emit (Write q (length chunk))
                  ((emit (Chunk (length chunk)) w)
                     \<lparr>files := append_file (files w) q chunk\<rparr>)))
            (bar + length chunk))"

text \<open>
  Lines 55 to 73: the size for the progress bar, the two messages, \<open>open\<close>, the loop,
  and the closing message. The result is the exception raised, if any, and the world.
\<close>

definition save_stream ::
  "env \<Rightarrow> response \<Rightarrow> string \<Rightarrow> path \<Rightarrow> world \<Rightarrow> exn option \<times> world" where
  "save_stream env r filename destination_path w =
     (case total_size_of r of
        Inl e \<Rightarrow> (Some e, w)
      | Inr total_size \<Rightarrow>
          if division_overflows total_size then (Some OverflowError, w)
          else
            (let w1 = emit (Print (MsgSaveTo destination_path))
                        (emit (Print (MsgPrepare filename total_size)) w)
             in case open_wb env (files w1) destination_path of
                  Inl e \<Rightarrow> (Some (OSError e), w1)
                | Inr (q, fs') \<Rightarrow>
                    (case write_chunks env q 0 (fst (iter_content CHUNK_SIZE r))
                            (emit (Opened destination_path) (w1\<lparr>files := fs'\<rparr>)) 0 of
                       (Some e, w2, bar) \<Rightarrow> (Some e, w2)
                     | (None, w2, bar) \<Rightarrow>
                         (case snd (iter_content CHUNK_SIZE r) of
                            Some ne \<Rightarrow> (Some (RequestException ne), w2)
                          | None \<Rightarrow>
                              (None, emit (Print (MsgDone destination_path)) w2)))))"

text \<open>The body of the \<open>try\<close>, lines 39 to 73.\<close>

definition try_block :: "env \<Rightarrow> path \<Rightarrow> string \<Rightarrow> world \<Rightarrow> exn option \<times> world" where
  "try_block env version_dir api_url w =
     (case http_get env api_url of
        Inl ne \<Rightarrow> (Some (RequestException ne), emit (Get api_url) w)
      | Inr r \<Rightarrow>
          (case raise_for_status r of
             Some e \<Rightarrow> (Some e, emit (Get api_url) w)
           | None \<Rightarrow>
               (let filename = path_name (unquote (url r));
                    destination_path = path_join version_dir filename;
                    w1 = emit (Stat destination_path) (emit (Get api_url) w)
                in if path_exists (files w1) destination_path
                   then (None, emit (Print (MsgExists destination_path)) w1)
                   else save_stream env r filename destination_path w1)))"

text \<open>
  The \<open>except\<close> clauses, in their order: \<open>HTTPError\<close>, then \<open>RequestException\<close>, then
  \<open>Exception\<close>.
\<close>

fun except_message :: "int \<Rightarrow> exn \<Rightarrow> message" where
  "except_message version (HTTPError status) =
     (if status = 404 then MsgNotFound version
      else MsgHttpError version (HTTPError status))"
| "except_message version (RequestException ne) =
     MsgNetworkFailed version (RequestException ne)"
| "except_message version e = MsgUnknownError version e"

text \<open>
  \<open>download_jdk(version)\<close>. The directory is made before the \<open>try\<close>: an exception of
  \<open>mkdir\<close> leaves the function, with the world as it was. An exception of the \<open>try\<close>
  block is printed by its \<open>except\<close> clause and the function returns.
\<close>

definition download_jdk :: "env \<Rightarrow> int \<Rightarrow> world \<Rightarrow> exn option \<times> world" where
  "download_jdk env version w =
     (let version_dir = version_dir_of version in
      case path_mkdir env True (files w) version_dir of
        Inl e \<Rightarrow> (Some (OSError e), w)
      | Inr fs1 \<Rightarrow>
          (let api_url = api_url_of version;
               w1 = emit (Print (MsgRequest api_url))
                      (emit (Print (MsgProcessing version version_dir))
                         (emit (Mkdir version_dir) (w\<lparr>files := fs1\<rparr>)))
           in case try_block env version_dir api_url w1 of
                (None, w2) \<Rightarrow> (None, w2)
              | (Some e, w2) \<Rightarrow> (None, emit (Print (except_message version e)) w2)))"

subsection \<open>\<open>main\<close>\<close>

text \<open>The loop of lines 93 and 94: an exception of a call ends it.\<close>

fun for_versions :: "env \<Rightarrow> int list \<Rightarrow> world \<Rightarrow> exn option \<times> world" where
  "for_versions env [] w = (None, w)"
| "for_versions env (version # rest) w =
     (case download_jdk env version w of
        (Some e, w') \<Rightarrow> (Some e, w')
      | (None, w') \<Rightarrow> for_versions env rest w')"

definition main :: "env \<Rightarrow> world \<Rightarrow> exn option \<times> world" where
  "main env w =
     (case for_versions env JDK_VERSIONS
             (emit (Print MsgRule) (emit (Print MsgLayout)
                (emit (Print MsgStart) (emit (Print MsgRule) w)))) of
        (Some e, w') \<Rightarrow> (Some e, w')
      | (None, w') \<Rightarrow> (None, emit (Print MsgAllDone) w'))"

subsection \<open>Outcomes\<close>

text \<open>
  The function returns nothing: the outcome of a call is the last message it prints.
  The five classes are the specification's names for these messages; both HTTP errors
  other than 404 and failures of the transport are its \<open>NetworkError\<close>.
\<close>

datatype FetchOutcome = Downloaded | AlreadyPresent | NotFound | NetworkError | UnknownError

fun outcome_of :: "message \<Rightarrow> FetchOutcome option" where
  "outcome_of (MsgDone p) = Some Downloaded"
| "outcome_of (MsgExists p) = Some AlreadyPresent"
| "outcome_of (MsgNotFound v) = Some NotFound"
| "outcome_of (MsgHttpError v e) = Some NetworkError"
| "outcome_of (MsgNetworkFailed v e) = Some NetworkError"
| "outcome_of (MsgUnknownError v e) = Some UnknownError"
| "outcome_of m = None"

text \<open>
  The marks of a log: where the processing of a version begins (the message of line 34)
  and where it ends with an outcome.
\<close>

datatype mark = Begin int | End FetchOutcome

fun mark_of :: "event \<Rightarrow> mark option" where
  "mark_of (Print (MsgProcessing v d)) = Some (Begin v)"
| "mark_of (Print m) = map_option End (outcome_of m)"
| "mark_of e = None"

definition marks :: "event list \<Rightarrow> mark list" where
  "marks evs = List.map_filter mark_of evs"

subsection \<open>Names for parts of the log and of the state\<close>

text \<open>
  The destination path of lines 44 to 47, for the response \<open>r\<close> to the request of the
  version \<open>v\<close>.
\<close>

definition destination_of :: "int \<Rightarrow> response \<Rightarrow> path" where
  "destination_of v r = path_join (version_dir_of v) (path_name (unquote (url r)))"

text \<open>What every call that returns logs first, up to the GET.\<close>

definition prologue :: "int \<Rightarrow> event list" where
  "prologue v =
     [Mkdir (version_dir_of v), Print (MsgProcessing v (version_dir_of v)),
      Print (MsgRequest (api_url_of v)), Get (api_url_of v)]"

text \<open>What a call logs from the existence test to the opened file.\<close>

definition opening_events :: "int \<Rightarrow> response \<Rightarrow> int \<Rightarrow> event list" where
  "opening_events v r n =
     [Stat (destination_of v r),
      Print (MsgPrepare (path_name (unquote (url r))) n),
      Print (MsgSaveTo (destination_of v r)),
      Opened (destination_of v r)]"

text \<open>What one round of the loop logs.\<close>

definition chunk_events :: "path \<Rightarrow> bytes \<Rightarrow> event list" where
  "chunk_events q chunk =
     [Chunk (length chunk), Write q (length chunk), BarUpdate (length chunk)]"

text \<open>The bytes written and the count of the progress bar, read off a log.\<close>

fun written_bytes :: "event list \<Rightarrow> nat" where
  "written_bytes [] = 0"
| "written_bytes (Write p k # evs) = k + written_bytes evs"
| "written_bytes (e # evs) = written_bytes evs"

fun bar_count :: "event list \<Rightarrow> nat" where
  "bar_count [] = 0"
| "bar_count (BarUpdate k # evs) = k + bar_count evs"
| "bar_count (e # evs) = bar_count evs"

text \<open>
  Whether \<open>mkdir\<close> can make the directory of a version: it is a directory already, or
  nothing is there and the system does not refuse.
\<close>

definition can_make_dir :: "env \<Rightarrow> fs \<Rightarrow> path \<Rightarrow> bool" where
  "can_make_dir env fs d =
     (case fs d of
        Some Dir \<Rightarrow> True
      | Some (File c) \<Rightarrow> False
      | None \<Rightarrow> os_fault env (SysMkdir d) = None)"

subsection \<open>Concrete environments and worlds\<close>

text \<open>
  An empty working directory, and one in which a regular file has the name \<open>jdk9\<close>.
\<close>

definition w_empty :: world where
  "w_empty = \<lparr>files = Map.empty, log = []\<rparr>"

definition w_blocked :: world where
  "w_blocked = \<lparr>files = [[''jdk9''] \<mapsto> File ''x''], log = []\<rparr>"

text \<open>No network: every GET raises \<open>ConnectionError\<close>. The system refuses nothing.\<close>

definition env_offline :: env where
  "env_offline = \<lparr>http_get = (\<lambda>u. Inl ConnectionError), os_fault = (\<lambda>s. None)\<rparr>"

text \<open>
  A server whose redirect ends at a URL with a query string, as the signed URLs of
  release assets have; the body is three bytes, the header announces them.
\<close>

definition resp_query :: response where
  "resp_query =
     \<lparr>status_code = 200,
      url = ''https://cdn.example/assets/jdk8.tar.gz?type=application%2Fgzip'',
      content_length = Some (IntValue 3), raw = [''abc''], raw_error = None\<rparr>"

definition env_query :: env where
  "env_query = \<lparr>http_get = (\<lambda>u. Inr resp_query), os_fault = (\<lambda>s. None)\<rparr>"

text \<open>The working directory after version 8 was fetched from that server.\<close>

definition w_present :: world where
  "w_present =
     \<lparr>files = [[''jdk8''] \<mapsto> Dir, [''jdk8'', ''gzip''] \<mapsto> File ''abc''], log = []\<rparr>"

text \<open>A server that has no release for any version: status 404.\<close>

definition resp_missing :: response where
  "resp_missing =
     \<lparr>status_code = 404, url = ''https://api.adoptium.net/v3/binary/latest'',
      content_length = None, raw = [], raw_error = None\<rparr>"

definition env_missing :: env where
  "env_missing = \<lparr>http_get = (\<lambda>u. Inr resp_missing), os_fault = (\<lambda>s. None)\<rparr>"

text \<open>A working directory in which \<open>jdk8/gzip\<close> holds an older download.\<close>

definition w_old :: world where
  "w_old =
     \<lparr>files = [[''jdk8''] \<mapsto> Dir, [''jdk8'', ''gzip''] \<mapsto> File ''previous''], log = []\<rparr>"

text \<open>
  A server whose response announces ten bytes and delivers three, without an error of
  the stream (a body that is compressed in transfer is counted so by the header).
\<close>

definition resp_short :: response where
  "resp_short =
     \<lparr>status_code = 200, url = ''https://cdn.example/jdk8.tar.gz'',
      content_length = Some (IntValue 10), raw = [''abc''], raw_error = None\<rparr>"

definition env_short :: env where
  "env_short = \<lparr>http_get = (\<lambda>u. Inr resp_short), os_fault = (\<lambda>s. None)\<rparr>"

text \<open>A server that sends no \<open>content-length\<close> and delivers five bytes in two segments.\<close>

definition resp_bare :: response where
  "resp_bare =
     \<lparr>status_code = 200, url = ''https://cdn.example/jdk8.tar.gz'',
      content_length = None, raw = [''abc'', ''de''], raw_error = None\<rparr>"

definition env_bare :: env where
  "env_bare = \<lparr>http_get = (\<lambda>u. Inr resp_bare), os_fault = (\<lambda>s. None)\<rparr>"




section \<open>Properties\<close>

subsection \<open>Strings and paths\<close>

lemma split_sep_nonempty: "split_sep c s \<noteq> []"
  by (induction s) (auto split: list.splits)

lemma split_sep_no_sep: "x \<in> set (split_sep c s) \<Longrightarrow> c \<notin> set x"
  by (induction s arbitrary: x) (auto split: if_splits list.splits)

lemma split_sep_id: "c \<notin> set x \<Longrightarrow> split_sep c x = [x]"
  by (induction x) auto

lemma path_parts_single:
  "CHR ''/'' \<notin> set x \<Longrightarrow> x \<noteq> [] \<Longrightarrow> x \<noteq> ''.'' \<Longrightarrow> path_parts x = [x]"
  by (simp add: path_parts_def split_sep_id)

lemma path_parts_empty: "path_parts [] = []"
  by (simp add: path_parts_def)

lemma path_parts_elem:
  "x \<in> set (path_parts s) \<Longrightarrow> CHR ''/'' \<notin> set x \<and> x \<noteq> [] \<and> x \<noteq> ''.''"
  by (auto simp: path_parts_def dest: split_sep_no_sep)

lemma path_name_cases: "path_name s = [] \<or> path_name s \<in> set (path_parts s)"
  by (auto simp: path_name_def split: list.splits)

lemma path_parts_name:
  "path_parts (path_name s) = (if path_name s = [] then [] else [path_name s])"
  using path_name_cases [of s] path_parts_elem [of "path_name s" s]
  by (auto simp: path_parts_empty path_parts_single)

lemma path_join_name:
  "path_join d (path_name s) = (if path_name s = [] then d else d @ [path_name s])"
  by (simp add: path_join_def path_parts_name)

lemma digit_not_slash: "d < 10 \<Longrightarrow> digit d \<noteq> CHR ''/''"
proof
  assume d: "d < 10" and eq: "digit d = CHR ''/''"
  have "(of_char (digit d) :: nat) = (48 + d) mod 256"
    by (simp add: digit_def)
  with d have "(of_char (digit d) :: nat) = 48 + d" by simp
  with eq show False by simp
qed

lemma str_nat_no_slash: "CHR ''/'' \<notin> set (str_nat n)"
proof (induction n rule: str_nat.induct)
  case (1 n)
  show ?case
  proof (cases "n < 10")
    case True
    then show ?thesis
      using digit_not_slash [of n] by (simp add: str_nat.simps [of n])
  next
    case False
    have "n mod 10 < 10" by simp
    then have "digit (n mod 10) \<noteq> CHR ''/''" by (rule digit_not_slash)
    with False "1.IH" show ?thesis
      by (auto simp: str_nat.simps [of n])
  qed
qed

lemma str_int_no_slash: "CHR ''/'' \<notin> set (str_int v)"
  by (simp add: str_int_def str_nat_no_slash)

lemma version_dir_of_eq: "version_dir_of v = [''jdk'' @ str_int v]"
  by (simp add: version_dir_of_def path_parts_single str_int_no_slash)

subsection \<open>Making the directory, looking up the destination\<close>

lemma os_mkdir_single:
  "os_mkdir env fs [d] =
     (case fs [d] of
        Some n \<Rightarrow> Inl EEXIST
      | None \<Rightarrow> (case os_fault env (SysMkdir [d]) of
                   Some e \<Rightarrow> Inl e
                 | None \<Rightarrow> Inr (fs([d] \<mapsto> Dir))))"
  by (simp add: os_mkdir_def node_at_def)

lemma stat_single: "d \<noteq> ''..'' \<Longrightarrow> stat fs [d] = fs [d]"
  by (simp add: stat_def node_at_def)

lemma path_mkdir_root: "path_mkdir env parents fs [] = Inr fs"
  by (simp add: path_mkdir.simps [of env parents fs "[]"] os_mkdir_def path_is_dir_def
      stat_def node_at_def)

lemma path_mkdir_no_parents:
  "d \<noteq> ''..'' \<Longrightarrow> path_mkdir env False fs [d] =
     (case fs [d] of
        Some Dir \<Rightarrow> Inr fs
      | Some (File c) \<Rightarrow> Inl EEXIST
      | None \<Rightarrow> (case os_fault env (SysMkdir [d]) of
                   Some e \<Rightarrow> Inl e
                 | None \<Rightarrow> Inr (fs([d] \<mapsto> Dir))))"
  by (simp add: path_mkdir.simps [of env False fs "[d]"] os_mkdir_single path_is_dir_def
      stat_single split: option.splits node.splits)

lemma path_mkdir_single:
  "d \<noteq> ''..'' \<Longrightarrow> path_mkdir env True fs [d] =
     (case fs [d] of
        Some Dir \<Rightarrow> Inr fs
      | Some (File c) \<Rightarrow> Inl EEXIST
      | None \<Rightarrow> (case os_fault env (SysMkdir [d]) of
                   Some e \<Rightarrow> Inl e
                 | None \<Rightarrow> Inr (fs([d] \<mapsto> Dir))))"
  by (simp add: path_mkdir.simps [of env True fs "[d]"] os_mkdir_single path_is_dir_def
      stat_single path_mkdir_root path_mkdir_no_parents split: option.splits node.splits)

lemma jdk_not_dotdot: "''jdk'' @ s \<noteq> ''..''"
  by simp

lemma mkdir_version_dir:
  "path_mkdir env True fs (version_dir_of v) =
     (case fs (version_dir_of v) of
        Some Dir \<Rightarrow> Inr fs
      | Some (File c) \<Rightarrow> Inl EEXIST
      | None \<Rightarrow> (case os_fault env (SysMkdir (version_dir_of v)) of
                   Some e \<Rightarrow> Inl e
                 | None \<Rightarrow> Inr (fs(version_dir_of v \<mapsto> Dir))))"
  unfolding version_dir_of_eq by (rule path_mkdir_single) simp

lemma mkdir_version_dir_Inr:
  assumes "path_mkdir env True fs (version_dir_of v) = Inr fs1"
  shows "fs1 (version_dir_of v) = Some Dir"
    and "fs1 = fs \<or> (fs (version_dir_of v) = None \<and> fs1 = fs(version_dir_of v \<mapsto> Dir))"
  using assms by (auto simp: mkdir_version_dir split: option.splits node.splits)

lemma stat_child:
  "d \<noteq> ''..'' \<Longrightarrow> fs [d] = Some Dir \<Longrightarrow>
   stat fs [d, n] = (if n = ''..'' then Some Dir else fs [d, n])"
  by (simp add: stat_def node_at_def)

lemma canon_child:
  "d \<noteq> ''..'' \<Longrightarrow> fs [d] = Some Dir \<Longrightarrow> n \<noteq> ''..'' \<Longrightarrow> canon fs [] [d, n] = Some [d, n]"
  by (simp add: node_at_def)

lemma not_exists_canon:
  "\<not> path_exists fs p \<Longrightarrow> canon fs [] p = None \<or> (\<exists>q. canon fs [] p = Some q \<and> q \<noteq> [] \<and> fs q = None)"
  by (auto simp: path_exists_def stat_def node_at_def split: option.splits if_splits)

subsection \<open>The loop and the streaming block\<close>

lemma write_chunks_result:
  assumes "files w q = Some (File old)"
  shows "\<exists>k x w' bar'. write_chunks env q i cs w bar = (x, w', bar') \<and>
           k \<le> length cs \<and> (x = None \<longleftrightarrow> k = length cs) \<and>
           (\<forall>e. x = Some e \<longrightarrow>
              (\<exists>oe. e = OSError oe \<and> os_fault env (SysWrite q (i + k)) = Some oe)) \<and>
           files w' = (files w)(q \<mapsto> File (old @ concat (take k cs))) \<and>
           log w' = log w @ concat (map (chunk_events q) (take k cs)) @
                       (if k < length cs then [Chunk (length (cs ! k))] else []) \<and>
           bar' = bar + length (concat (take k cs))"
  using assms
proof (induction cs arbitrary: i w bar old)
  case Nil
  then show ?case
    by (auto simp: fun_upd_idem)
next
  case (Cons c cs)
  show ?case
  proof (cases "os_fault env (SysWrite q i)")
    case (Some e)
    with Cons.prems show ?thesis
      by (intro exI [of _ 0] exI [of _ "Some (OSError e)"]) (simp add: fun_upd_idem emit_def)
  next
    case None
    let ?w3 = "emit (BarUpdate (length c))
               (emit (Write q (length c))
                  ((emit (Chunk (length c)) w)\<lparr>files := append_file (files w) q c\<rparr>))"
    have f3: "files ?w3 = (files w)(q \<mapsto> File (old @ c))"
      using Cons.prems by (simp add: emit_def append_file_def file_content_def)
    have l3: "log ?w3 = log w @ chunk_events q c"
      by (simp add: emit_def chunk_events_def)
    from f3 have "files ?w3 q = Some (File (old @ c))" by simp
    from Cons.IH [OF this, of "Suc i" "bar + length c"]
    obtain k x w' bar' where eq: "write_chunks env q (Suc i) cs ?w3 (bar + length c) = (x, w', bar')"
      and k: "k \<le> length cs" "(x = None) = (k = length cs)"
      "\<forall>e. x = Some e \<longrightarrow>
         (\<exists>oe. e = OSError oe \<and> os_fault env (SysWrite q (Suc i + k)) = Some oe)"
      and f: "files w' = (files ?w3)(q \<mapsto> File ((old @ c) @ concat (take k cs)))"
      and l: "log w' = log ?w3 @ concat (map (chunk_events q) (take k cs)) @
                       (if k < length cs then [Chunk (length (cs ! k))] else [])"
      and b: "bar' = bar + length c + length (concat (take k cs))"
      by blast
    from f f3 have f': "files w' = (files w)(q \<mapsto> File (old @ concat (take (Suc k) (c # cs))))"
      by simp
    from l l3 have l': "log w' = log w @ concat (map (chunk_events q) (take (Suc k) (c # cs))) @
           (if Suc k < length (c # cs) then [Chunk (length ((c # cs) ! Suc k))] else [])"
      by simp
    from b have b': "bar' = bar + length (concat (take (Suc k) (c # cs)))" by simp
    from None eq have "write_chunks env q i (c # cs) w bar = (x, w', bar')" by simp
    with k f' l' b' show ?thesis
      by (intro exI [of _ "Suc k"] exI [of _ x] exI [of _ w'] exI [of _ bar']) simp
  qed
qed

lemma open_wb_fresh:
  assumes "canon fs [] dest = Some dest" "fs dest = None" "dest \<noteq> []"
  shows "open_wb env fs dest =
     (case os_fault env (SysOpen dest) of
        Some e \<Rightarrow> Inl e
      | None \<Rightarrow> Inr (dest, fs(dest \<mapsto> File [])))"
  using assms by (simp add: open_wb_def node_at_def)

lemma save_stream_cases:
  assumes fresh: "canon (files w) [] dest = Some dest" "files w dest = None" "dest \<noteq> []"
  obtains
    (early) e where
      "total_size_of r = Inl e \<or>
       (\<exists>n. total_size_of r = Inr n \<and> division_overflows n \<and> e = OverflowError)"
      "save_stream env r name dest w = (Some e, w)"
  | (refused) n oe w' where
      "total_size_of r = Inr n" "\<not> division_overflows n"
      "os_fault env (SysOpen dest) = Some oe"
      "save_stream env r name dest w = (Some (OSError oe), w')"
      "files w' = files w"
      "log w' = log w @ [Print (MsgPrepare name n), Print (MsgSaveTo dest)]"
  | (streamed) n k x w' where
      "total_size_of r = Inr n" "\<not> division_overflows n"
      "os_fault env (SysOpen dest) = None"
      "k \<le> length (fst (iter_content CHUNK_SIZE r))"
      "save_stream env r name dest w = (x, w')"
      "files w' = (files w)(dest \<mapsto> File (concat (take k (fst (iter_content CHUNK_SIZE r)))))"
      "k < length (fst (iter_content CHUNK_SIZE r)) \<Longrightarrow>
         (\<exists>oe. x = Some (OSError oe) \<and> os_fault env (SysWrite dest k) = Some oe) \<and>
         log w' = log w @ [Print (MsgPrepare name n), Print (MsgSaveTo dest), Opened dest] @
           concat (map (chunk_events dest) (take k (fst (iter_content CHUNK_SIZE r)))) @
           [Chunk (length (fst (iter_content CHUNK_SIZE r) ! k))]"
      "k = length (fst (iter_content CHUNK_SIZE r)) \<Longrightarrow>
         x = map_option RequestException (raw_error r) \<and>
         log w' = log w @ [Print (MsgPrepare name n), Print (MsgSaveTo dest), Opened dest] @
           concat (map (chunk_events dest) (fst (iter_content CHUNK_SIZE r))) @
           (case raw_error r of None \<Rightarrow> [Print (MsgDone dest)] | Some ne \<Rightarrow> [])"
proof (cases "total_size_of r")
  case (Inl e)
  then have "save_stream env r name dest w = (Some e, w)"
    by (simp add: save_stream_def)
  with Inl show ?thesis by (intro early [of e]) auto
next
  case (Inr n)
  show ?thesis
  proof (cases "division_overflows n")
    case True
    with Inr have "save_stream env r name dest w = (Some OverflowError, w)"
      by (simp add: save_stream_def)
    with Inr True show ?thesis by (intro early [of OverflowError]) auto
  next
    case False
    let ?w1 = "emit (Print (MsgSaveTo dest)) (emit (Print (MsgPrepare name n)) w)"
    have f1: "files ?w1 = files w" by (simp add: emit_def)
    have l1: "log ?w1 = log w @ [Print (MsgPrepare name n), Print (MsgSaveTo dest)]"
      by (simp add: emit_def)
    show ?thesis
    proof (cases "os_fault env (SysOpen dest)")
      case (Some oe)
      with fresh have "open_wb env (files ?w1) dest = Inl oe"
        by (simp add: f1 open_wb_fresh)
      with Inr False have "save_stream env r name dest w = (Some (OSError oe), ?w1)"
        by (simp add: save_stream_def Let_def)
      with Inr False Some f1 l1 show ?thesis by (intro refused [of n oe ?w1]) auto
    next
      case None
      let ?cs = "fst (iter_content CHUNK_SIZE r)"
      let ?w2 = "emit (Opened dest) (?w1\<lparr>files := (files w)(dest \<mapsto> File [])\<rparr>)"
      from None fresh have op: "open_wb env (files ?w1) dest = Inr (dest, (files w)(dest \<mapsto> File []))"
        by (simp add: f1 open_wb_fresh)
      have f2: "files ?w2 = (files w)(dest \<mapsto> File [])" by (simp add: emit_def)
      then have "files ?w2 dest = Some (File [])" by simp
      from write_chunks_result [OF this, of env 0 ?cs 0]
      obtain k x w' bar' where wc: "write_chunks env dest 0 ?cs ?w2 0 = (x, w', bar')"
        and k: "k \<le> length ?cs" "(x = None) = (k = length ?cs)"
          "\<forall>e. x = Some e \<longrightarrow>
             (\<exists>oe. e = OSError oe \<and> os_fault env (SysWrite dest (0 + k)) = Some oe)"
        and f: "files w' = (files ?w2)(dest \<mapsto> File ([] @ concat (take k ?cs)))"
        and l: "log w' = log ?w2 @ concat (map (chunk_events dest) (take k ?cs)) @
                       (if k < length ?cs then [Chunk (length (?cs ! k))] else [])"
        by blast
      have f': "files w' = (files w)(dest \<mapsto> File (concat (take k ?cs)))"
        using f f2 by simp
      have l2: "log ?w2 = log w @ [Print (MsgPrepare name n), Print (MsgSaveTo dest), Opened dest]"
        by (simp add: emit_def)
      show ?thesis
      proof (cases "k < length ?cs")
        case True
        with k obtain oe where x: "x = Some (OSError oe)"
          and wf: "os_fault env (SysWrite dest k) = Some oe" by (cases x) auto
        from Inr False op wc x have "save_stream env r name dest w = (x, w')"
          by (simp add: save_stream_def Let_def)
        moreover from True l l2 have "log w' = log w @ [Print (MsgPrepare name n), Print (MsgSaveTo dest), Opened dest] @
           concat (map (chunk_events dest) (take k ?cs)) @ [Chunk (length (?cs ! k))]"
          by simp
        ultimately show ?thesis
          using Inr False None k f' True x wf by (intro streamed [of n k x w']) auto
      next
        case nlt: False
        with k have keq: "k = length ?cs" and x: "x = None" by auto
        show ?thesis
        proof (cases "raw_error r")
          case None' : None
          let ?w3 = "emit (Print (MsgDone dest)) w'"
          from Inr False op wc x None' have "save_stream env r name dest w = (None, ?w3)"
            by (simp add: save_stream_def Let_def iter_content_def)
          moreover have "files ?w3 = (files w)(dest \<mapsto> File (concat (take k ?cs)))"
            using f' by (simp add: emit_def)
          moreover have "log ?w3 = log w @ [Print (MsgPrepare name n), Print (MsgSaveTo dest), Opened dest] @
             concat (map (chunk_events dest) ?cs) @ [Print (MsgDone dest)]"
            using l l2 keq by (simp add: emit_def)
          ultimately show ?thesis
            using Inr False None k keq None' by (intro streamed [of n k None ?w3]) auto
        next
          case (Some ne)
          from Inr False op wc x Some have "save_stream env r name dest w = (Some (RequestException ne), w')"
            by (simp add: save_stream_def Let_def iter_content_def)
          moreover have "log w' = log w @ [Print (MsgPrepare name n), Print (MsgSaveTo dest), Opened dest] @
             concat (map (chunk_events dest) ?cs)"
            using l l2 keq by simp
          ultimately show ?thesis
            using Inr False None k keq Some f' by (intro streamed [of n k "Some (RequestException ne)" w']) auto
        qed
      qed
    qed
  qed
qed

subsection \<open>The cases of a call\<close>

lemma destination_missing:
  assumes d: "fs (version_dir_of v) = Some Dir"
    and ne: "\<not> path_exists fs (destination_of v r)"
  shows "canon fs [] (destination_of v r) = Some (destination_of v r)"
    and "fs (destination_of v r) = None"
    and "destination_of v r = [''jdk'' @ str_int v, path_name (unquote (url r))]"
proof -
  let ?n = "path_name (unquote (url r))"
  let ?d = "''jdk'' @ str_int v"
  have dd: "fs [?d] = Some Dir" using d by (simp add: version_dir_of_eq)
  have "?n \<noteq> []"
  proof
    assume "?n = []"
    then have "destination_of v r = [?d]"
      by (simp add: destination_of_def path_join_def path_parts_empty version_dir_of_eq)
    with dd ne show False by (simp add: path_exists_def stat_single)
  qed
  then have dest: "destination_of v r = [?d, ?n]"
    by (simp add: destination_of_def path_join_name version_dir_of_eq)
  have st: "stat fs [?d, ?n] = None"
    using ne dest by (simp add: path_exists_def)
  with dd have nn: "?n \<noteq> ''..''" and none: "fs [?d, ?n] = None"
    by (auto simp: stat_child split: if_splits)
  from dest show "destination_of v r = [?d, ?n]" .
  from dest none show "fs (destination_of v r) = None" by simp
  from dest dd nn show "canon fs [] (destination_of v r) = Some (destination_of v r)"
    by (simp add: node_at_def)
qed

lemma download_jdk_raises:
  "path_mkdir env True (files w) (version_dir_of v) = Inl e \<Longrightarrow>
   download_jdk env v w = (Some (OSError e), w)"
  by (simp add: download_jdk_def)

lemma download_jdk_cases:
  assumes mk: "path_mkdir env True (files w) (version_dir_of v) = Inr fs1"
  obtains
    (net) ne w' where
      "http_get env (api_url_of v) = Inl ne"
      "download_jdk env v w = (None, w')" "files w' = fs1"
      "log w' = log w @ prologue v @ [Print (MsgNetworkFailed v (RequestException ne))]"
  | (http) r w' where
      "http_get env (api_url_of v) = Inr r"
      "400 \<le> status_code r" "status_code r < 600"
      "download_jdk env v w = (None, w')" "files w' = fs1"
      "log w' = log w @ prologue v @
         [Print (if status_code r = 404 then MsgNotFound v
                 else MsgHttpError v (HTTPError (status_code r)))]"
  | (present) r w' where
      "http_get env (api_url_of v) = Inr r" "raise_for_status r = None"
      "path_exists fs1 (destination_of v r)"
      "download_jdk env v w = (None, w')" "files w' = fs1"
      "log w' = log w @ prologue v @
         [Stat (destination_of v r), Print (MsgExists (destination_of v r))]"
  | (early) r e w' where
      "http_get env (api_url_of v) = Inr r" "raise_for_status r = None"
      "\<not> path_exists fs1 (destination_of v r)"
      "e = ValueError \<or> e = OverflowError"
      "total_size_of r = Inl e \<or>
       (\<exists>n. total_size_of r = Inr n \<and> division_overflows n \<and> e = OverflowError)"
      "download_jdk env v w = (None, w')" "files w' = fs1"
      "log w' = log w @ prologue v @
         [Stat (destination_of v r), Print (MsgUnknownError v e)]"
  | (refused) r n oe w' where
      "http_get env (api_url_of v) = Inr r" "raise_for_status r = None"
      "\<not> path_exists fs1 (destination_of v r)"
      "os_fault env (SysOpen (destination_of v r)) = Some oe"
      "total_size_of r = Inr n" "\<not> division_overflows n"
      "download_jdk env v w = (None, w')" "files w' = fs1"
      "log w' = log w @ prologue v @
         [Stat (destination_of v r),
          Print (MsgPrepare (path_name (unquote (url r))) n),
          Print (MsgSaveTo (destination_of v r)),
          Print (MsgUnknownError v (OSError oe))]"
  | (broken) r n k oe w' where
      "http_get env (api_url_of v) = Inr r" "raise_for_status r = None"
      "\<not> path_exists fs1 (destination_of v r)"
      "os_fault env (SysOpen (destination_of v r)) = None"
      "k < length (fst (iter_content CHUNK_SIZE r))"
      "os_fault env (SysWrite (destination_of v r) k) = Some oe"
      "total_size_of r = Inr n" "\<not> division_overflows n"
      "download_jdk env v w = (None, w')"
      "files w' = fs1(destination_of v r \<mapsto>
          File (concat (take k (fst (iter_content CHUNK_SIZE r)))))"
      "log w' = log w @ prologue v @ opening_events v r n @
         concat (map (chunk_events (destination_of v r))
                   (take k (fst (iter_content CHUNK_SIZE r)))) @
         [Chunk (length (fst (iter_content CHUNK_SIZE r) ! k)),
          Print (MsgUnknownError v (OSError oe))]"
  | (cut) r n ne w' where
      "http_get env (api_url_of v) = Inr r" "raise_for_status r = None"
      "\<not> path_exists fs1 (destination_of v r)"
      "os_fault env (SysOpen (destination_of v r)) = None"
      "raw_error r = Some ne"
      "total_size_of r = Inr n" "\<not> division_overflows n"
      "download_jdk env v w = (None, w')"
      "files w' = fs1(destination_of v r \<mapsto>
          File (concat (fst (iter_content CHUNK_SIZE r))))"
      "log w' = log w @ prologue v @ opening_events v r n @
         concat (map (chunk_events (destination_of v r))
                   (fst (iter_content CHUNK_SIZE r))) @
         [Print (MsgNetworkFailed v (RequestException ne))]"
  | (complete) r n w' where
      "http_get env (api_url_of v) = Inr r" "raise_for_status r = None"
      "\<not> path_exists fs1 (destination_of v r)"
      "os_fault env (SysOpen (destination_of v r)) = None"
      "raw_error r = None"
      "total_size_of r = Inr n" "\<not> division_overflows n"
      "download_jdk env v w = (None, w')"
      "files w' = fs1(destination_of v r \<mapsto>
          File (concat (fst (iter_content CHUNK_SIZE r))))"
      "log w' = log w @ prologue v @ opening_events v r n @
         concat (map (chunk_events (destination_of v r))
                   (fst (iter_content CHUNK_SIZE r))) @
         [Print (MsgDone (destination_of v r))]"
proof -
  let ?d = "version_dir_of v"
  let ?u = "api_url_of v"
  let ?w1 = "emit (Print (MsgRequest ?u))
               (emit (Print (MsgProcessing v ?d)) (emit (Mkdir ?d) (w\<lparr>files := fs1\<rparr>)))"
  let ?wg = "emit (Get ?u) ?w1"
  have dj: "download_jdk env v w =
      (case try_block env ?d ?u ?w1 of
         (None, w2) \<Rightarrow> (None, w2)
       | (Some e, w2) \<Rightarrow> (None, emit (Print (except_message v e)) w2))"
    using mk by (simp add: download_jdk_def Let_def)
  have fg: "files ?wg = fs1" by (simp add: emit_def)
  have lg: "log ?wg = log w @ prologue v" by (simp add: emit_def prologue_def)
  have dir: "fs1 ?d = Some Dir" using mk by (rule mkdir_version_dir_Inr)
  show ?thesis
  proof (cases "http_get env ?u")
    case (Inl ne)
    let ?w' = "emit (Print (MsgNetworkFailed v (RequestException ne))) ?wg"
    from Inl have "download_jdk env v w = (None, ?w')"
      by (simp add: dj try_block_def)
    moreover have "files ?w' = fs1" by (simp add: emit_def)
    moreover have "log ?w' = log w @ prologue v @ [Print (MsgNetworkFailed v (RequestException ne))]"
      using lg by (simp add: emit_def)
    ultimately show ?thesis using Inl by (rule net [rotated])
  next
    case (Inr r)
    show ?thesis
    proof (cases "raise_for_status r")
      case (Some e)
      then have st: "400 \<le> status_code r" "status_code r < 600" and e: "e = HTTPError (status_code r)"
        by (auto simp: raise_for_status_def split: if_splits)
      let ?m = "if status_code r = 404 then MsgNotFound v
                 else MsgHttpError v (HTTPError (status_code r))"
      let ?w' = "emit (Print ?m) ?wg"
      from Inr Some e have "download_jdk env v w = (None, ?w')"
        by (simp add: dj try_block_def)
      moreover have "files ?w' = fs1" by (simp add: emit_def)
      moreover have "log ?w' = log w @ prologue v @ [Print ?m]"
        using lg by (simp add: emit_def)
      ultimately show ?thesis using Inr st by (intro http [of r ?w']) 
    next
      case None
      let ?dest = "destination_of v r"
      let ?name = "path_name (unquote (url r))"
      let ?ws = "emit (Stat ?dest) ?wg"
      have fs: "files ?ws = fs1" by (simp add: emit_def)
      have ls: "log ?ws = log w @ prologue v @ [Stat ?dest]" using lg by (simp add: emit_def)
      have tb: "try_block env ?d ?u ?w1 =
          (if path_exists fs1 ?dest then (None, emit (Print (MsgExists ?dest)) ?ws)
           else save_stream env r ?name ?dest ?ws)"
        using Inr None by (simp add: try_block_def Let_def destination_of_def emit_def)
      show ?thesis
      proof (cases "path_exists fs1 ?dest")
        case True
        let ?w' = "emit (Print (MsgExists ?dest)) ?ws"
        from True have "download_jdk env v w = (None, ?w')"
          by (simp add: dj tb)
        moreover have "files ?w' = fs1" by (simp add: emit_def)
        moreover have "log ?w' = log w @ prologue v @ [Stat ?dest, Print (MsgExists ?dest)]"
          using ls by (simp add: emit_def)
        ultimately show ?thesis using Inr None True by (intro present [of r ?w'])
      next
        case False
        have fresh: "canon (files ?ws) [] ?dest = Some ?dest" "files ?ws ?dest = None"
          unfolding fs using dir False by (rule destination_missing)+
        have "?dest \<noteq> []"
          using destination_missing(3) [OF dir False] by simp
        note fresh = fresh this
        from False have tb': "try_block env ?d ?u ?w1 = save_stream env r ?name ?dest ?ws"
          by (simp add: tb)
        from fresh show ?thesis
        proof (cases rule: save_stream_cases [where env = env and r = r and name = ?name])
          case (early e)
          then have e: "e = ValueError \<or> e = OverflowError"
            by (auto simp: total_size_of_def split: option.splits header_int.splits)
          let ?w' = "emit (Print (MsgUnknownError v e)) ?ws"
          from early e have "download_jdk env v w = (None, ?w')"
            by (auto simp: dj tb')
          moreover have "files ?w' = fs1" by (simp add: emit_def)
          moreover have "log ?w' = log w @ prologue v @ [Stat ?dest, Print (MsgUnknownError v e)]"
            using ls by (simp add: emit_def)
          ultimately show ?thesis using Inr None False e early(1)
            by (intro that(4) [where r = r and e = e and w' = ?w'])
        next
          case (refused n oe w2)
          let ?w' = "emit (Print (MsgUnknownError v (OSError oe))) w2"
          from refused have "download_jdk env v w = (None, ?w')"
            by (simp add: dj tb')
          moreover have "files ?w' = fs1" using refused fs by (simp add: emit_def)
          moreover have "log ?w' = log w @ prologue v @
              [Stat ?dest, Print (MsgPrepare ?name n), Print (MsgSaveTo ?dest),
               Print (MsgUnknownError v (OSError oe))]"
            using refused ls by (simp add: emit_def)
          ultimately show ?thesis using Inr None False refused
            by (intro that(5) [where r = r and oe = oe and w' = ?w' and n = n])
        next
          case (streamed n k x w2)
          let ?cs = "fst (iter_content CHUNK_SIZE r)"
          have f2: "files w2 = fs1(?dest \<mapsto> File (concat (take k ?cs)))"
            using streamed fs by simp
          show ?thesis
          proof (cases "k < length ?cs")
            case True
            with streamed obtain oe where x: "x = Some (OSError oe)"
              and wf: "os_fault env (SysWrite ?dest k) = Some oe"
              and l2: "log w2 = log ?ws @ [Print (MsgPrepare ?name n), Print (MsgSaveTo ?dest), Opened ?dest] @
                 concat (map (chunk_events ?dest) (take k ?cs)) @ [Chunk (length (?cs ! k))]"
              by auto
            let ?w' = "emit (Print (MsgUnknownError v (OSError oe))) w2"
            from streamed x have "download_jdk env v w = (None, ?w')"
              by (simp add: dj tb')
            moreover have "files ?w' = fs1(?dest \<mapsto> File (concat (take k ?cs)))"
              using f2 by (simp add: emit_def)
            moreover have "log ?w' = log w @ prologue v @ opening_events v r n @
                concat (map (chunk_events ?dest) (take k ?cs)) @
                [Chunk (length (?cs ! k)), Print (MsgUnknownError v (OSError oe))]"
              using l2 ls by (simp add: emit_def opening_events_def)
            ultimately show ?thesis using Inr None False streamed True wf
              by (intro that(6) [where r = r and k = k and oe = oe and w' = ?w' and n = n])
          next
            case nlt: False
            with streamed have keq: "k = length ?cs" by simp
            with streamed have x: "x = map_option RequestException (raw_error r)"
              and l2: "log w2 = log ?ws @ [Print (MsgPrepare ?name n), Print (MsgSaveTo ?dest), Opened ?dest] @
                 concat (map (chunk_events ?dest) ?cs) @
                 (case raw_error r of None \<Rightarrow> [Print (MsgDone ?dest)] | Some ne \<Rightarrow> [])"
              by auto
            from f2 keq have f2': "files w2 = fs1(?dest \<mapsto> File (concat ?cs))" by simp
            show ?thesis
            proof (cases "raw_error r")
              case None' : None
              from streamed x None' have "download_jdk env v w = (None, w2)"
                by (simp add: dj tb')
              moreover have "log w2 = log w @ prologue v @ opening_events v r n @
                  concat (map (chunk_events ?dest) ?cs) @ [Print (MsgDone ?dest)]"
                using l2 ls None' by (simp add: opening_events_def)
              ultimately show ?thesis using Inr None False streamed None' f2'
                by (intro that(8) [where r = r and n = n and w' = w2])
            next
              case (Some ne)
              let ?w' = "emit (Print (MsgNetworkFailed v (RequestException ne))) w2"
              from streamed x Some have "download_jdk env v w = (None, ?w')"
                by (simp add: dj tb')
              moreover have "files ?w' = fs1(?dest \<mapsto> File (concat ?cs))"
                using f2' by (simp add: emit_def)
              moreover have "log ?w' = log w @ prologue v @ opening_events v r n @
                  concat (map (chunk_events ?dest) ?cs) @
                  [Print (MsgNetworkFailed v (RequestException ne))]"
                using l2 ls Some by (simp add: emit_def opening_events_def)
              ultimately show ?thesis using Inr None False streamed Some
                by (intro that(7) [where r = r and ne = ne and w' = ?w' and n = n])
            qed
          qed
        qed
      qed
    qed
  qed
qed

subsection \<open>Marks of a log; a call returns\<close>

lemma marks_Nil: "marks [] = []"
  by (simp add: marks_def map_filter_simps)

lemma marks_Cons:
  "marks (e # evs) = (case mark_of e of None \<Rightarrow> marks evs | Some m \<Rightarrow> m # marks evs)"
  by (simp add: marks_def map_filter_simps split: option.splits)

lemma marks_append: "marks (xs @ ys) = marks xs @ marks ys"
  by (induction xs) (simp_all add: marks_Nil marks_Cons split: option.splits)

lemma marks_prologue: "marks (prologue v) = [Begin v]"
  by (simp add: prologue_def marks_Cons marks_Nil)

lemma marks_opening_events: "marks (opening_events v r n) = []"
  by (simp add: opening_events_def marks_Cons marks_Nil)

lemma marks_chunk_events: "marks (concat (map (chunk_events q) cs)) = []"
  by (induction cs) (simp_all add: marks_Nil marks_Cons marks_append chunk_events_def)

lemma can_make_dir_iff:
  "can_make_dir env fs (version_dir_of v) \<longleftrightarrow>
   (\<exists>fs1. path_mkdir env True fs (version_dir_of v) = Inr fs1)"
  by (simp add: can_make_dir_def mkdir_version_dir split: option.splits node.splits)


subsection \<open>What a call leaves untouched\<close>

lemma mkdir_keeps:
  assumes "path_mkdir env True fs (version_dir_of v) = Inr fs1" "fs p = Some n"
  shows "fs1 p = Some n"
  using mkdir_version_dir_Inr(2) [OF assms(1)] assms(2) by auto

lemma mkdir_elsewhere:
  assumes "path_mkdir env True fs (version_dir_of v) = Inr fs1" "p \<noteq> version_dir_of v"
  shows "fs1 p = fs p"
  using mkdir_version_dir_Inr(2) [OF assms(1)] assms(2) by auto

lemma download_jdk_files:
  assumes run: "download_jdk env v w = (x, w')"
  shows "files w' = files w \<or>
         (\<exists>fs1. path_mkdir env True (files w) (version_dir_of v) = Inr fs1 \<and>
            (files w' = fs1 \<or>
             (\<exists>r c. http_get env (api_url_of v) = Inr r \<and>
                    \<not> path_exists fs1 (destination_of v r) \<and>
                    files w' = fs1(destination_of v r \<mapsto> File c))))"
proof (cases "path_mkdir env True (files w) (version_dir_of v)")
  case (Inl e)
  with run show ?thesis by (simp add: download_jdk_raises)
next
  case (Inr fs1)
  from Inr show ?thesis
    by (cases rule: download_jdk_cases) (use run Inr in auto)
qed

lemma download_jdk_preserves:
  assumes run: "download_jdk env v w = (x, w')" and p: "files w p = Some n"
  shows "files w' p = Some n"
proof -
  from download_jdk_files [OF run] show ?thesis
  proof (elim disjE exE conjE)
    assume "files w' = files w"
    with p show ?thesis by simp
  next
    fix fs1 assume mk: "path_mkdir env True (files w) (version_dir_of v) = Inr fs1"
      and "files w' = fs1"
    with mkdir_keeps [OF mk p] show ?thesis by simp
  next
    fix fs1 r c
    assume mk: "path_mkdir env True (files w) (version_dir_of v) = Inr fs1"
      and ne: "\<not> path_exists fs1 (destination_of v r)"
      and f: "files w' = fs1(destination_of v r \<mapsto> File c)"
    have "fs1 (version_dir_of v) = Some Dir" using mk by (rule mkdir_version_dir_Inr)
    from destination_missing(2) [OF this ne] have "fs1 (destination_of v r) = None" .
    moreover have "fs1 p = Some n" using mk p by (rule mkdir_keeps)
    ultimately have "p \<noteq> destination_of v r" by auto
    with f \<open>fs1 p = Some n\<close> show ?thesis by simp
  qed
qed



subsection \<open>The loop of \<open>main\<close>; chunks and counts\<close>


lemma chunks_of_Nil: "chunks_of n [] = []"
  by (simp add: chunks_of.simps [of n "[]"])

lemma concat_chunks_of: "0 < n \<Longrightarrow> concat (chunks_of n bs) = bs"
proof (induction n bs rule: chunks_of.induct)
  case (1 n bs)
  then show ?case
    by (cases "bs = []") (simp_all add: chunks_of_Nil chunks_of.simps [of n bs])
qed

lemma chunks_of_bounded: "c \<in> set (chunks_of n bs) \<Longrightarrow> 0 < length c \<and> length c \<le> n"
proof (induction n bs rule: chunks_of.induct)
  case (1 n bs)
  show ?case
  proof (cases "n = 0 \<or> bs = []")
    case True
    with "1.prems" show ?thesis by (simp add: chunks_of.simps [of n bs])
  next
    case False
    with "1.prems" have "c = take n bs \<or> c \<in> set (chunks_of n (drop n bs))"
      by (simp add: chunks_of.simps [of n bs])
    then show ?thesis
    proof
      assume "c = take n bs"
      with False show ?thesis by (cases bs) auto
    next
      assume "c \<in> set (chunks_of n (drop n bs))"
      with "1.IH" False show ?thesis by simp
    qed
  qed
qed

lemma chunks_of_short: "bs \<noteq> [] \<Longrightarrow> length bs \<le> n \<Longrightarrow> chunks_of n bs = [bs]"
  by (cases "n = 0") (simp_all add: chunks_of.simps [of n bs] chunks_of_Nil)

lemma iter_content_concat: "concat (fst (iter_content CHUNK_SIZE r)) = concat (raw r)"
proof -
  have "concat (concat (map (chunks_of CHUNK_SIZE) segs)) = concat segs" for segs
    by (induction segs) (simp_all add: concat_chunks_of CHUNK_SIZE_def)
  then show ?thesis by (simp add: iter_content_def)
qed

lemma iter_content_bounded:
  "c \<in> set (fst (iter_content CHUNK_SIZE r)) \<Longrightarrow> 0 < length c \<and> length c \<le> CHUNK_SIZE"
  by (auto simp: iter_content_def dest: chunks_of_bounded)

lemma written_bytes_append: "written_bytes (xs @ ys) = written_bytes xs + written_bytes ys"
  by (induction xs rule: written_bytes.induct) simp_all

lemma bar_count_append: "bar_count (xs @ ys) = bar_count xs + bar_count ys"
  by (induction xs rule: bar_count.induct) simp_all

lemma written_bytes_chunks:
  "written_bytes (concat (map (chunk_events q) cs)) = length (concat cs)"
  by (induction cs) (simp_all add: written_bytes_append chunk_events_def)

lemma bar_count_chunks:
  "bar_count (concat (map (chunk_events q) cs)) = length (concat cs)"
  by (induction cs) (simp_all add: bar_count_append chunk_events_def)

subsection \<open>The events after the GET\<close>

lemma in_chunk_events:
  "e \<in> set (concat (map (chunk_events q) cs)) \<longleftrightarrow>
   (\<exists>c\<in>set cs. e = Chunk (length c) \<or> e = Write q (length c) \<or> e = BarUpdate (length c))"
  by (auto simp: chunk_events_def)

lemma download_jdk_tail:
  assumes mk: "path_mkdir env True (files w) (version_dir_of v) = Inr fs1"
  obtains w' evs where
    "download_jdk env v w = (None, w')"
    "log w' = log w @ prologue v @ evs"
    "\<forall>p. Mkdir p \<notin> set evs" "\<forall>u. Get u \<notin> set evs"
    "\<forall>p. Opened p \<in> set evs \<or> (\<exists>k. Write p k \<in> set evs) \<longrightarrow>
       (\<exists>r. http_get env (api_url_of v) = Inr r \<and> p = destination_of v r \<and>
            \<not> path_exists fs1 p)"
    "files w' (version_dir_of v) = Some Dir"
proof -
  have dir: "fs1 (version_dir_of v) = Some Dir" using mk by (rule mkdir_version_dir_Inr)
  have upd: "(fs1(destination_of v r \<mapsto> n)) (version_dir_of v) = Some Dir"
    if "\<not> path_exists fs1 (destination_of v r)" for r n
    using destination_missing(2) [OF dir that] dir by auto
  from mk show ?thesis
  proof (cases rule: download_jdk_cases)
    case (net ne w')
    then show ?thesis using dir by (intro that [of w']) auto
  next
    case (http r w')
    then show ?thesis using dir by (intro that [of w']) auto
  next
    case (present r w')
    then show ?thesis using dir by (intro that [of w']) auto
  next
    case (early r e w')
    then show ?thesis using dir by (intro that [of w']) auto
  next
    case (refused r n oe w')
    then show ?thesis using dir by (intro that [of w']) auto
  next
    case (broken r n k oe w')
    then show ?thesis using upd [of r]
      by (intro that [of w']) (auto simp: opening_events_def chunk_events_def)
  next
    case (cut r n ne w')
    then show ?thesis using upd [of r]
      by (intro that [of w']) (auto simp: opening_events_def chunk_events_def)
  next
    case (complete r n w')
    then show ?thesis using upd [of r]
      by (intro that [of w']) (auto simp: opening_events_def chunk_events_def)
  qed
qed

subsection \<open>Values at the concrete inputs\<close>

lemma str_int_8: "str_int 8 = ''8''"
  by code_simp

lemma version_dir_8: "version_dir_of 8 = [''jdk8'']"
  by (simp add: version_dir_of_eq str_int_8)

lemma name_query: "path_name (unquote (url resp_query)) = ''gzip''"
  by code_simp

lemma destination_query_8: "destination_of 8 resp_query = [''jdk8'', ''gzip'']"
  by (simp add: destination_of_def name_query version_dir_8 path_join_def path_parts_single)

subsection \<open>A destination that is missing after \<open>mkdir\<close> was missing before\<close>

lemma missing_under_missing_dir:
  "d \<noteq> ''..'' \<Longrightarrow> fs [d] = None \<Longrightarrow> \<not> path_exists fs [d, n]"
  by (simp add: path_exists_def stat_def node_at_def)

lemma destination_was_missing:
  assumes mk: "path_mkdir env True fs (version_dir_of v) = Inr fs1"
    and ne: "\<not> path_exists fs1 (destination_of v r)"
  shows "fs (destination_of v r) = None" and "\<not> path_exists fs (destination_of v r)"
proof -
  have dir: "fs1 (version_dir_of v) = Some Dir" using mk by (rule mkdir_version_dir_Inr)
  note dm = destination_missing [OF dir ne]
  from mkdir_version_dir_Inr(2) [OF mk]
  have "fs (destination_of v r) = None \<and> \<not> path_exists fs (destination_of v r)"
  proof
    assume "fs1 = fs"
    with dm(2) ne show ?thesis by simp
  next
    assume a: "fs (version_dir_of v) = None \<and> fs1 = fs(version_dir_of v \<mapsto> Dir)"
    then have "fs [''jdk'' @ str_int v] = None" by (simp add: version_dir_of_eq)
    then have "\<not> path_exists fs [''jdk'' @ str_int v, path_name (unquote (url r))]"
      by (intro missing_under_missing_dir) simp_all
    moreover have "fs (destination_of v r) = None"
      using a dm(2) by (auto split: if_splits)
    ultimately show ?thesis using dm(3) by simp
  qed
  then show "fs (destination_of v r) = None" and "\<not> path_exists fs (destination_of v r)"
    by simp_all
qed

subsection \<open>Three branches as equations\<close>

lemma world_eq: "files w' = f \<Longrightarrow> log w' = l \<Longrightarrow> w' = \<lparr>files = f, log = l\<rparr>"
  by (cases w') simp


lemma download_jdk_present:
  assumes mk: "path_mkdir env True (files w) (version_dir_of v) = Inr fs1"
    and get: "http_get env (api_url_of v) = Inr r"
    and ok: "raise_for_status r = None"
    and ex: "path_exists fs1 (destination_of v r)"
  shows "download_jdk env v w =
     (None, \<lparr>files = fs1,
             log = log w @ prologue v @
               [Stat (destination_of v r), Print (MsgExists (destination_of v r))]\<rparr>)"
proof -
  from mk obtain w' where "download_jdk env v w = (None, w')" "files w' = fs1"
    "log w' = log w @ prologue v @
       [Stat (destination_of v r), Print (MsgExists (destination_of v r))]"
    by (cases rule: download_jdk_cases) (use get ok ex in \<open>auto simp: raise_for_status_def\<close>)
  then show ?thesis by (simp add: world_eq)
qed

lemma download_jdk_streamed:
  assumes mk: "path_mkdir env True (files w) (version_dir_of v) = Inr fs1"
    and get: "http_get env (api_url_of v) = Inr r"
    and ok: "raise_for_status r = None"
    and ne: "\<not> path_exists fs1 (destination_of v r)"
    and ts: "total_size_of r = Inr n"
    and op: "os_fault env (SysOpen (destination_of v r)) = None"
    and wr: "\<forall>i. os_fault env (SysWrite (destination_of v r) i) = None"
    and nov: "\<not> division_overflows n"
  shows "download_jdk env v w =
     (None, \<lparr>files = fs1(destination_of v r \<mapsto> File (concat (raw r))),
             log = log w @ prologue v @ opening_events v r n @
               concat (map (chunk_events (destination_of v r))
                         (fst (iter_content CHUNK_SIZE r))) @
               [Print (case raw_error r of
                         None \<Rightarrow> MsgDone (destination_of v r)
                       | Some e \<Rightarrow> MsgNetworkFailed v (RequestException e))]\<rparr>)"
proof -
  from mk obtain w' where "download_jdk env v w = (None, w')"
    "files w' = fs1(destination_of v r \<mapsto> File (concat (raw r)))"
    "log w' = log w @ prologue v @ opening_events v r n @
               concat (map (chunk_events (destination_of v r))
                         (fst (iter_content CHUNK_SIZE r))) @
               [Print (case raw_error r of
                         None \<Rightarrow> MsgDone (destination_of v r)
                       | Some e \<Rightarrow> MsgNetworkFailed v (RequestException e))]"
  proof (cases rule: download_jdk_cases)
    case (cut r' n' ne' w')
    with get ts have "r' = r" "n' = n" by simp_all
    with cut that [of w'] show ?thesis by (simp add: iter_content_concat)
  next
    case (complete r' n' w')
    with get ts have "r' = r" "n' = n" by simp_all
    with complete that [of w'] show ?thesis by (simp add: iter_content_concat)
  qed (use get ok ne ts op wr nov in \<open>auto simp: raise_for_status_def\<close>)
  then show ?thesis by (simp add: world_eq)
qed

lemma download_jdk_raised_log:
  assumes "download_jdk env v w = (x, w')" "log w' = log w @ evs"
    "path_mkdir env True (files w) (version_dir_of v) = Inl e"
  shows "evs = []"
  using assms by (simp add: download_jdk_raises)

lemmas marks_simps = marks_append marks_prologue marks_Cons marks_Nil
  marks_opening_events marks_chunk_events

lemma name_plain: "path_name (unquote ''https://cdn.example/jdk8.tar.gz'') = ''jdk8.tar.gz''"
  by code_simp

lemma destination_plain_8:
  "url r = ''https://cdn.example/jdk8.tar.gz'' \<Longrightarrow>
   destination_of 8 r = [''jdk8'', ''jdk8.tar.gz'']"
  by (simp add: destination_of_def name_plain version_dir_8 path_join_def path_parts_single)

lemma mkdir_8_empty:
  "os_fault env (SysMkdir [''jdk8'']) = None \<Longrightarrow>
   path_mkdir env True Map.empty (version_dir_of 8) = Inr [[''jdk8''] \<mapsto> Dir]"
  by (simp add: version_dir_8 path_mkdir_single)

lemma fresh_8:
  "\<not> path_exists [[''jdk8''] \<mapsto> Dir] [''jdk8'', ''jdk8.tar.gz'']"
  by (simp add: path_exists_def stat_def node_at_def)

lemma small_does_not_overflow: "\<bar>n\<bar> \<le> 1000 \<Longrightarrow> \<not> division_overflows n"
proof -
  have "(1000::int) < 2 ^ 990" by simp
  moreover have "(2::int) ^ 990 \<le> 2 ^ 1044 - 2 ^ 990" by simp
  ultimately show "\<bar>n\<bar> \<le> 1000 \<Longrightarrow> \<not> division_overflows n"
    by (simp add: division_overflows_def)
qed

lemma run_short:
  "download_jdk env_short 8 w_empty =
     (None, \<lparr>files = [[''jdk8''] \<mapsto> Dir, [''jdk8'', ''jdk8.tar.gz''] \<mapsto> File ''abc''],
             log = prologue 8 @ opening_events 8 resp_short 10 @
                   chunk_events [''jdk8'', ''jdk8.tar.gz''] ''abc'' @
                   [Print (MsgDone [''jdk8'', ''jdk8.tar.gz''])]\<rparr>)"
proof -
  have d: "destination_of 8 resp_short = [''jdk8'', ''jdk8.tar.gz'']"
    by (rule destination_plain_8) (simp add: resp_short_def)
  have mk: "path_mkdir env_short True (files w_empty) (version_dir_of 8) = Inr [[''jdk8''] \<mapsto> Dir]"
    by (simp add: w_empty_def mkdir_8_empty env_short_def)
  have get: "http_get env_short (api_url_of 8) = Inr resp_short" by (simp add: env_short_def)
  have ok: "raise_for_status resp_short = None"
    by (simp add: raise_for_status_def resp_short_def)
  have ne: "\<not> path_exists [[''jdk8''] \<mapsto> Dir] (destination_of 8 resp_short)"
    unfolding d by (rule fresh_8)
  have ts: "total_size_of resp_short = Inr 10" by (simp add: total_size_of_def resp_short_def)
  have op: "os_fault env_short (SysOpen (destination_of 8 resp_short)) = None"
    by (simp add: env_short_def)
  have wr: "\<forall>i. os_fault env_short (SysWrite (destination_of 8 resp_short) i) = None"
    by (simp add: env_short_def)
  have nov: "\<not> division_overflows 10" by (rule small_does_not_overflow) simp
  have cs: "fst (iter_content CHUNK_SIZE resp_short) = [''abc'']"
    by (simp add: iter_content_def resp_short_def chunks_of_short CHUNK_SIZE_def)
  have raw: "raw resp_short = [''abc'']" "raw_error resp_short = None"
    by (simp_all add: resp_short_def)
  show ?thesis
    unfolding download_jdk_streamed [OF mk get ok ne ts op wr nov] cs raw d
    by (simp add: w_empty_def)
qed

lemma run_bare:
  "download_jdk env_bare 8 w_empty =
     (None, \<lparr>files = [[''jdk8''] \<mapsto> Dir, [''jdk8'', ''jdk8.tar.gz''] \<mapsto> File ''abcde''],
             log = prologue 8 @ opening_events 8 resp_bare 0 @
                   chunk_events [''jdk8'', ''jdk8.tar.gz''] ''abc'' @
                   chunk_events [''jdk8'', ''jdk8.tar.gz''] ''de'' @
                   [Print (MsgDone [''jdk8'', ''jdk8.tar.gz''])]\<rparr>)"
proof -
  have d: "destination_of 8 resp_bare = [''jdk8'', ''jdk8.tar.gz'']"
    by (rule destination_plain_8) (simp add: resp_bare_def)
  have mk: "path_mkdir env_bare True (files w_empty) (version_dir_of 8) = Inr [[''jdk8''] \<mapsto> Dir]"
    by (simp add: w_empty_def mkdir_8_empty env_bare_def)
  have get: "http_get env_bare (api_url_of 8) = Inr resp_bare" by (simp add: env_bare_def)
  have ok: "raise_for_status resp_bare = None"
    by (simp add: raise_for_status_def resp_bare_def)
  have ne: "\<not> path_exists [[''jdk8''] \<mapsto> Dir] (destination_of 8 resp_bare)"
    unfolding d by (rule fresh_8)
  have ts: "total_size_of resp_bare = Inr 0" by (simp add: total_size_of_def resp_bare_def)
  have op: "os_fault env_bare (SysOpen (destination_of 8 resp_bare)) = None"
    by (simp add: env_bare_def)
  have wr: "\<forall>i. os_fault env_bare (SysWrite (destination_of 8 resp_bare) i) = None"
    by (simp add: env_bare_def)
  have nov: "\<not> division_overflows 0" by (rule small_does_not_overflow) simp
  have cs: "fst (iter_content CHUNK_SIZE resp_bare) = [''abc'', ''de'']"
    by (simp add: iter_content_def resp_bare_def chunks_of_short CHUNK_SIZE_def)
  have raw: "raw resp_bare = [''abc'', ''de'']" "raw_error resp_bare = None"
    by (simp_all add: resp_bare_def)
  show ?thesis
    unfolding download_jdk_streamed [OF mk get ok ne ts op wr nov] cs raw d
    by (simp add: w_empty_def)
qed





section \<open>The claims\<close>

text \<open>
  C1. The claim: \<open>download_jdk\<close> never raises; every failure of the directory creation,
  of the resolution or of the streaming is caught inside it and classified, so that no
  version's failure ends the run. The code catches the failures of the resolution and
  of the streaming, with a last \<open>except Exception\<close>, but \<open>mkdir\<close> (line 26) stands before
  the \<open>try\<close> (line 37). Here a regular file named \<open>jdk9\<close> lies in the working directory:
  version 8 is processed, the \<open>mkdir\<close> of version 9 raises \<open>FileExistsError\<close>, the
  exception leaves \<open>download_jdk\<close> and \<open>main\<close>, and the versions 10 to 21 are never
  begun.
\<close>

theorem mkdir_failure_escapes_download_jdk:
  "fst (download_jdk env_offline 9 w_blocked) = Some (OSError EEXIST) \<and>
   fst (main env_offline w_blocked) = Some (OSError EEXIST) \<and>
   marks (log (snd (main env_offline w_blocked))) = [Begin 8, End NetworkError]"
  by code_simp

text \<open>
  C6. The claim: the stored file name is the last segment of the path component of the
  final URL, percent-decoded. The code (line 44) decodes the whole URL and takes the
  text after its last slash, so a query string is part of the name, and a slash that
  the decoding produces cuts it. Here the final URL is
  \<open>https://cdn.example/assets/jdk8.tar.gz?type=application%2Fgzip\<close>: the last segment
  of its path is \<open>jdk8.tar.gz\<close>, and the file is stored as \<open>jdk8/gzip\<close>.
\<close>

theorem file_name_taken_from_query_string:
  "path_name (unquote (url resp_query)) = ''gzip'' \<and>
   files (snd (download_jdk env_query 8 w_empty)) [''jdk8'', ''gzip''] = Some (File ''abc'') \<and>
   files (snd (download_jdk env_query 8 w_empty)) [''jdk8'', ''jdk8.tar.gz''] = None"
  by code_simp

text \<open>
  C2. When the version directory is there, the resolution succeeds and something exists
  at the destination path \<open>jdk{v}/<derived name>\<close>, the call returns, prints the message
  of line 51 (\<open>AlreadyPresent\<close>) and leaves the file system as it was. Its log has the
  GET, which gives the name, and the existence test, and nothing after them: no file is
  opened, no chunk of the body is taken from the response, nothing is written.
\<close>

theorem already_present_is_skipped:
  assumes dir: "files w (version_dir_of v) = Some Dir"
    and get: "http_get env (api_url_of v) = Inr r"
    and ok: "raise_for_status r = None"
    and ex: "path_exists (files w) (destination_of v r)"
  shows "\<exists>w' evs. download_jdk env v w = (None, w') \<and> files w' = files w \<and>
           log w' = log w @ evs \<and>
           evs = prologue v @
                 [Stat (destination_of v r), Print (MsgExists (destination_of v r))] \<and>
           marks evs = [Begin v, End AlreadyPresent] \<and>
           written_bytes evs = 0 \<and>
           (\<forall>n. Chunk n \<notin> set evs) \<and> (\<forall>p. Opened p \<notin> set evs)"
proof -
  from dir have mk: "path_mkdir env True (files w) (version_dir_of v) = Inr (files w)"
    by (simp add: mkdir_version_dir)
  from mk obtain w' where "download_jdk env v w = (None, w')" "files w' = files w"
    "log w' = log w @ prologue v @
       [Stat (destination_of v r), Print (MsgExists (destination_of v r))]"
    by (cases rule: download_jdk_cases) (use get ok ex in \<open>auto simp: raise_for_status_def\<close>)
  then show ?thesis
    by (simp add: marks_append marks_prologue marks_Cons marks_Nil prologue_def)
qed

theorem already_present_is_skipped_witness:
  "files w_present (version_dir_of 8) = Some Dir \<and>
   http_get env_query (api_url_of 8) = Inr resp_query \<and>
   raise_for_status resp_query = None \<and>
   path_exists (files w_present) (destination_of 8 resp_query) \<and>
   (\<exists>w'. download_jdk env_query 8 w_present = (None, w') \<and>
         files w' = files w_present \<and>
         log w' = prologue 8 @
                 [Stat [''jdk8'', ''gzip''], Print (MsgExists [''jdk8'', ''gzip''])])"
proof -
  have dir: "files w_present (version_dir_of 8) = Some Dir"
    by (simp add: w_present_def version_dir_8)
  have get: "http_get env_query (api_url_of 8) = Inr resp_query"
    by (simp add: env_query_def)
  have ok: "raise_for_status resp_query = None"
    by (simp add: raise_for_status_def resp_query_def)
  have ex: "path_exists (files w_present) (destination_of 8 resp_query)"
    by (simp add: destination_query_8 w_present_def path_exists_def stat_def node_at_def)
  from already_present_is_skipped [OF dir get ok ex] dir get ok ex show ?thesis
    by (auto simp: destination_query_8 w_present_def)
qed

text \<open>
  C3. When the directory can be made and the response to the request has the status 404,
  the call returns with the message of line 77 (\<open>NotFound\<close>). No file is opened and
  nothing is written: the only path that may differ afterwards is the version
  directory, which exists. The loop of \<open>main\<close> goes on with the versions that remain.
\<close>

theorem not_found_is_classified:
  assumes mk: "can_make_dir env (files w) (version_dir_of v)"
    and get: "http_get env (api_url_of v) = Inr r"
    and st: "status_code r = 404"
  shows "\<exists>w' evs. download_jdk env v w = (None, w') \<and> log w' = log w @ evs \<and>
           evs = prologue v @ [Print (MsgNotFound v)] \<and>
           marks evs = [Begin v, End NotFound] \<and>
           written_bytes evs = 0 \<and> (\<forall>p. Opened p \<notin> set evs) \<and>
           files w' (version_dir_of v) = Some Dir \<and>
           (\<forall>p. p \<noteq> version_dir_of v \<longrightarrow> files w' p = files w p) \<and>
           for_versions env (v # rest) w = for_versions env rest w'"
proof -
  from mk obtain fs1 where mk': "path_mkdir env True (files w) (version_dir_of v) = Inr fs1"
    by (auto simp: can_make_dir_iff)
  from mk' obtain w' where run: "download_jdk env v w = (None, w')" and f: "files w' = fs1"
    and l: "log w' = log w @ prologue v @ [Print (MsgNotFound v)]"
    by (cases rule: download_jdk_cases) (use get st in \<open>auto simp: raise_for_status_def\<close>)
  have "files w' (version_dir_of v) = Some Dir"
    using mkdir_version_dir_Inr(1) [OF mk'] f by simp
  moreover have "\<forall>p. p \<noteq> version_dir_of v \<longrightarrow> files w' p = files w p"
    using mkdir_elsewhere [OF mk'] f by simp
  moreover have "for_versions env (v # rest) w = for_versions env rest w'"
    using run by simp
  ultimately show ?thesis using run l
    by (simp add: marks_append marks_prologue marks_Cons marks_Nil prologue_def)
qed

theorem not_found_is_classified_witness:
  "can_make_dir env_missing (files w_empty) (version_dir_of 8) \<and>
   http_get env_missing (api_url_of 8) = Inr resp_missing \<and>
   status_code resp_missing = 404 \<and>
   (\<exists>w'. download_jdk env_missing 8 w_empty = (None, w') \<and>
         marks (log w') = [Begin 8, End NotFound] \<and>
         files w' [''jdk8''] = Some Dir \<and>
         for_versions env_missing [8, 9] w_empty = for_versions env_missing [9] w')"
proof -
  have mk: "can_make_dir env_missing (files w_empty) (version_dir_of 8)"
    by (simp add: can_make_dir_def w_empty_def env_missing_def)
  have get: "http_get env_missing (api_url_of 8) = Inr resp_missing"
    by (simp add: env_missing_def)
  have st: "status_code resp_missing = 404"
    by (simp add: resp_missing_def)
  from not_found_is_classified [OF mk get st, of "[9]"] mk get st show ?thesis
    by (auto simp: w_empty_def version_dir_8)
qed

text \<open>
  C4. The directory of a version is named \<open>jdk\<close> followed by the decimal digits of the
  version, and of nothing else. When \<open>mkdir\<close> can make it (it is there already, or
  nothing is there and the system does not refuse), the call returns whatever the
  request then gives; \<open>mkdir\<close> is the first thing it does, before the GET, and it is the
  only \<open>mkdir\<close> and the only GET of the call; afterwards the directory exists, and
  making it once more succeeds and changes nothing. The path has one component, so the
  only ancestor is the working directory.
\<close>

theorem version_directory_is_made_first:
  assumes mk: "can_make_dir env (files w) (version_dir_of v)"
  shows "version_dir_of v = [''jdk'' @ str_int v] \<and>
         (\<exists>w' evs. download_jdk env v w = (None, w') \<and>
            log w' = log w @
              [Mkdir (version_dir_of v), Print (MsgProcessing v (version_dir_of v)),
               Print (MsgRequest (api_url_of v)), Get (api_url_of v)] @ evs \<and>
            (\<forall>p. Mkdir p \<notin> set evs) \<and> (\<forall>u. Get u \<notin> set evs) \<and>
            files w' (version_dir_of v) = Some Dir \<and>
            can_make_dir env (files w') (version_dir_of v) \<and>
            path_mkdir env True (files w') (version_dir_of v) = Inr (files w'))"
proof -
  from mk obtain fs1 where mk': "path_mkdir env True (files w) (version_dir_of v) = Inr fs1"
    by (auto simp: can_make_dir_iff)
  from mk' obtain w' evs where run: "download_jdk env v w = (None, w')"
    and l: "log w' = log w @ prologue v @ evs"
    and ev: "\<forall>p. Mkdir p \<notin> set evs" "\<forall>u. Get u \<notin> set evs"
    and d: "files w' (version_dir_of v) = Some Dir"
    by (rule download_jdk_tail)
  from d have "path_mkdir env True (files w') (version_dir_of v) = Inr (files w')"
    by (simp add: mkdir_version_dir)
  moreover from d have "can_make_dir env (files w') (version_dir_of v)"
    by (simp add: can_make_dir_def)
  ultimately show ?thesis using run l ev d
    by (auto simp: version_dir_of_eq prologue_def)
qed

theorem version_directory_is_made_first_witness:
  "can_make_dir env_offline (files w_empty) (version_dir_of 11) \<and>
   version_dir_of 11 = [''jdk11''] \<and>
   (\<exists>w'. download_jdk env_offline 11 w_empty = (None, w') \<and>
         files w' [''jdk11''] = Some Dir \<and>
         marks (log w') = [Begin 11, End NetworkError])"
proof -
  have s: "str_int 11 = ''11''" by code_simp
  have mk: "can_make_dir env_offline (files w_empty) (version_dir_of 11)"
    by (simp add: can_make_dir_def w_empty_def env_offline_def)
  have "marks (log (snd (download_jdk env_offline 11 w_empty))) = [Begin 11, End NetworkError]"
    by code_simp
  with version_directory_is_made_first [OF mk] mk show ?thesis
    by (auto simp: s)
qed

text \<open>
  C5. The claim has two parts. The first, that the destination is opened for
  exclusive creation, fails: line 61 opens it with mode \<open>'wb'\<close>, which creates the file
  or truncates the one that exists, and does not fail on an existing file. Below, the
  working directory holds \<open>jdk8/gzip\<close> with the content \<open>previous\<close>; \<open>open\<close> does not answer
  \<open>FileExistsError\<close>, and the block of lines 55 to 73, run on this destination, ends
  without an exception and leaves the new content \<open>abc\<close> in the file.
\<close>

theorem open_truncates_an_existing_file:
  "files w_old [''jdk8'', ''gzip''] = Some (File ''previous'') \<and>
   open_wb env_query (files w_old) [''jdk8'', ''gzip''] \<noteq> Inl EEXIST \<and>
   fst (save_stream env_query resp_query ''gzip'' [''jdk8'', ''gzip''] w_old) = None \<and>
   files (snd (save_stream env_query resp_query ''gzip'' [''jdk8'', ''gzip''] w_old))
     [''jdk8'', ''gzip''] = Some (File ''abc'')"
  by (simp add: w_old_def env_query_def resp_query_def save_stream_def total_size_of_def
      division_overflows_def open_wb_def node_at_def iter_content_def chunks_of_short
      CHUNK_SIZE_def emit_def append_file_def file_content_def)

text \<open>
  C5, as amended. What protects an existing file is the test of line 50 alone. For
  every call of \<open>download_jdk\<close>: whatever is in the file system before the call is in
  it unchanged after the call; and every path that the call opens or writes to was
  absent before the call, both as an entry and for \<open>exists()\<close>.
\<close>

theorem existing_paths_are_never_written:
  assumes run: "download_jdk env v w = (x, w')" and l: "log w' = log w @ evs"
  shows "(\<forall>p n. files w p = Some n \<longrightarrow> files w' p = Some n) \<and>
         (\<forall>p. Opened p \<in> set evs \<or> (\<exists>k. Write p k \<in> set evs) \<longrightarrow>
              files w p = None \<and> \<not> path_exists (files w) p)"
proof
  show "\<forall>p n. files w p = Some n \<longrightarrow> files w' p = Some n"
    using download_jdk_preserves [OF run] by blast
next
  show "\<forall>p. Opened p \<in> set evs \<or> (\<exists>k. Write p k \<in> set evs) \<longrightarrow>
              files w p = None \<and> \<not> path_exists (files w) p"
  proof (cases "path_mkdir env True (files w) (version_dir_of v)")
    case (Inl e)
    with run l have "evs = []" by (simp add: download_jdk_raises)
    then show ?thesis by simp
  next
    case (Inr fs1)
    then obtain w2 evs2 where run2: "download_jdk env v w = (None, w2)"
      and l2: "log w2 = log w @ prologue v @ evs2"
      and op: "\<forall>p. Opened p \<in> set evs2 \<or> (\<exists>k. Write p k \<in> set evs2) \<longrightarrow>
         (\<exists>r. http_get env (api_url_of v) = Inr r \<and> p = destination_of v r \<and>
              \<not> path_exists fs1 p)"
      by (rule download_jdk_tail)
    from run run2 l l2 have evs: "evs = prologue v @ evs2" by simp
    show ?thesis
    proof (intro allI impI)
      fix p assume "Opened p \<in> set evs \<or> (\<exists>k. Write p k \<in> set evs)"
      with evs have "Opened p \<in> set evs2 \<or> (\<exists>k. Write p k \<in> set evs2)"
        by (auto simp: prologue_def)
      with op obtain r where "p = destination_of v r" "\<not> path_exists fs1 p" by blast
      with destination_was_missing [OF Inr, of r]
      show "files w p = None \<and> \<not> path_exists (files w) p" by simp
    qed
  qed
qed

theorem existing_paths_are_never_written_witness:
  "download_jdk env_query 8 w_old =
     (fst (download_jdk env_query 8 w_old), snd (download_jdk env_query 8 w_old)) \<and>
   log (snd (download_jdk env_query 8 w_old)) =
     log w_old @ log (snd (download_jdk env_query 8 w_old)) \<and>
   files w_old [''jdk8'', ''gzip''] = Some (File ''previous'') \<and>
   files (snd (download_jdk env_query 8 w_old)) [''jdk8'', ''gzip''] = Some (File ''previous'')"
proof -
  have run: "download_jdk env_query 8 w_old =
     (fst (download_jdk env_query 8 w_old), snd (download_jdk env_query 8 w_old))"
    by simp
  have l: "log (snd (download_jdk env_query 8 w_old)) =
     log w_old @ log (snd (download_jdk env_query 8 w_old))"
    by (simp add: w_old_def)
  have f: "files w_old [''jdk8'', ''gzip''] = Some (File ''previous'')"
    by (simp add: w_old_def)
  from existing_paths_are_never_written [OF run l] f run l show ?thesis
    by blast
qed

text \<open>
  C7. The claim says that on a \<open>Downloaded\<close> outcome the bytes written equal the declared
  content length when the header is present. The code reads the header for the
  progress bar only (line 55, and the comment above it) and compares it with nothing.
  Here the header announces ten bytes and the stream ends, without an error, after
  three: the outcome is \<open>Downloaded\<close> and the file holds three bytes.
\<close>

theorem declared_length_is_not_compared:
  "content_length resp_short = Some (IntValue 10) \<and>
   marks (log (snd (download_jdk env_short 8 w_empty))) = [Begin 8, End Downloaded] \<and>
   files (snd (download_jdk env_short 8 w_empty)) [''jdk8'', ''jdk8.tar.gz''] =
     Some (File ''abc'') \<and>
   written_bytes (log (snd (download_jdk env_short 8 w_empty))) = 3"
  by (simp add: run_short marks_simps written_bytes_append prologue_def opening_events_def
      chunk_events_def resp_short_def)

text \<open>
  C7, as amended. Whenever a call ends as \<open>Downloaded\<close>, with the header or without it:
  the body was taken in chunks of at least one and at most 8192 bytes; the log shows,
  for every chunk in turn, the chunk, its write and the update of the progress bar by
  the number of bytes written, the closing message coming last; the file at the
  destination holds all the bytes the stream delivered; and both the bytes written and
  the count of the bar add up to that number. The witness is a response without
  \<open>content-length\<close>.
\<close>

theorem downloaded_file_holds_the_whole_stream:
  assumes run: "download_jdk env v w = (x, w')" and l: "log w' = log w @ evs"
    and dl: "End Downloaded \<in> set (marks evs)"
  shows "\<exists>r n. http_get env (api_url_of v) = Inr r \<and> total_size_of r = Inr n \<and>
           evs = prologue v @ opening_events v r n @
                 concat (map (chunk_events (destination_of v r))
                           (fst (iter_content CHUNK_SIZE r))) @
                 [Print (MsgDone (destination_of v r))] \<and>
           (\<forall>c\<in>set (fst (iter_content CHUNK_SIZE r)). 0 < length c \<and> length c \<le> 8192) \<and>
           concat (fst (iter_content CHUNK_SIZE r)) = concat (raw r) \<and>
           files w' (destination_of v r) = Some (File (concat (raw r))) \<and>
           written_bytes evs = length (concat (raw r)) \<and>
           bar_count evs = length (concat (raw r))"
proof (cases "path_mkdir env True (files w) (version_dir_of v)")
  case (Inl e)
  from download_jdk_raised_log [OF run l Inl] dl show ?thesis
    by (simp add: marks_Nil)
next
  case (Inr fs1)
  then show ?thesis
  proof (cases rule: download_jdk_cases)
    case (complete r n w2)
    with run l have evs: "evs = prologue v @ opening_events v r n @
        concat (map (chunk_events (destination_of v r)) (fst (iter_content CHUNK_SIZE r))) @
        [Print (MsgDone (destination_of v r))]" and w2: "w2 = w'"
      by simp_all
    have b: "\<forall>c\<in>set (fst (iter_content CHUNK_SIZE r)). 0 < length c \<and> length c \<le> 8192"
      using iter_content_bounded [of _ r] by (auto simp: CHUNK_SIZE_def)
    have f: "files w' (destination_of v r) = Some (File (concat (raw r)))"
      using complete w2 by (simp add: iter_content_concat)
    have wb: "written_bytes evs = length (concat (raw r))"
      unfolding evs
      by (simp add: written_bytes_append written_bytes_chunks prologue_def opening_events_def
          iter_content_concat del: length_concat)
    have bc: "bar_count evs = length (concat (raw r))"
      unfolding evs
      by (simp add: bar_count_append bar_count_chunks prologue_def opening_events_def
          iter_content_concat del: length_concat)
    from complete evs b f wb bc show ?thesis
      by (intro exI [of _ r] exI [of _ n]) (simp add: iter_content_concat)
  qed (use run l dl in \<open>auto simp: marks_simps split: if_splits\<close>)
qed

theorem downloaded_file_holds_the_whole_stream_witness:
  "content_length resp_bare = None \<and>
   download_jdk env_bare 8 w_empty = (None, snd (download_jdk env_bare 8 w_empty)) \<and>
   log (snd (download_jdk env_bare 8 w_empty)) =
     log w_empty @ log (snd (download_jdk env_bare 8 w_empty)) \<and>
   End Downloaded \<in> set (marks (log (snd (download_jdk env_bare 8 w_empty)))) \<and>
   files (snd (download_jdk env_bare 8 w_empty)) [''jdk8'', ''jdk8.tar.gz''] =
     Some (File ''abcde'') \<and>
   written_bytes (log (snd (download_jdk env_bare 8 w_empty))) = 5 \<and>
   bar_count (log (snd (download_jdk env_bare 8 w_empty))) = 5"
proof -
  let ?w' = "snd (download_jdk env_bare 8 w_empty)"
  have run: "download_jdk env_bare 8 w_empty = (None, ?w')" by (simp add: run_bare)
  have l: "log ?w' = log w_empty @ log ?w'" by (simp add: w_empty_def)
  have dl: "End Downloaded \<in> set (marks (log ?w'))"
    by (simp add: run_bare marks_simps chunk_events_def)
  have get: "http_get env_bare (api_url_of 8) = Inr resp_bare" by (simp add: env_bare_def)
  have d: "destination_of 8 resp_bare = [''jdk8'', ''jdk8.tar.gz'']"
    by (rule destination_plain_8) (simp add: resp_bare_def)
  have r: "concat (raw resp_bare) = ''abcde''" "content_length resp_bare = None"
    by (simp_all add: resp_bare_def)
  from downloaded_file_holds_the_whole_stream [OF run l dl] get
  have "files ?w' (destination_of 8 resp_bare) = Some (File (concat (raw resp_bare))) \<and>
        written_bytes (log ?w') = length (concat (raw resp_bare)) \<and>
        bar_count (log ?w') = length (concat (raw resp_bare))"
    by auto
  then show ?thesis using run l dl unfolding d r
    by simp
qed

text \<open>
  C9. The existence test comes after the request. When the network fails, the call
  ends as \<open>NetworkError\<close> after the GET, without any existence test, and leaves every
  file as it is, the file at the destination included. And a call can only end as
  \<open>AlreadyPresent\<close> with a GET that returned a response of a status outside 400 to 599:
  its log is \<open>mkdir\<close>, the two messages, the GET, the existence test and the message
  of line 51.
\<close>

theorem resolution_precedes_the_existence_test:
  "(can_make_dir env (files w) (version_dir_of v) \<and>
    http_get env (api_url_of v) = Inl ne \<longrightarrow>
      (\<exists>w' evs. download_jdk env v w = (None, w') \<and> log w' = log w @ evs \<and>
         evs = prologue v @ [Print (MsgNetworkFailed v (RequestException ne))] \<and>
         marks evs = [Begin v, End NetworkError] \<and>
         (\<forall>p. Stat p \<notin> set evs) \<and>
         (\<forall>p n. files w p = Some n \<longrightarrow> files w' p = Some n))) \<and>
   (download_jdk env v w = (x, w1) \<and> log w1 = log w @ evs1 \<and>
    End AlreadyPresent \<in> set (marks evs1) \<longrightarrow>
      (\<exists>r. http_get env (api_url_of v) = Inr r \<and> raise_for_status r = None \<and>
         evs1 = [Mkdir (version_dir_of v), Print (MsgProcessing v (version_dir_of v)),
                 Print (MsgRequest (api_url_of v)), Get (api_url_of v),
                 Stat (destination_of v r), Print (MsgExists (destination_of v r))]))"
proof (intro conjI impI)
  assume a: "can_make_dir env (files w) (version_dir_of v) \<and>
    http_get env (api_url_of v) = Inl ne"
  then obtain fs1 where mk: "path_mkdir env True (files w) (version_dir_of v) = Inr fs1"
    by (auto simp: can_make_dir_iff)
  from mk obtain w' where run: "download_jdk env v w = (None, w')"
    and l: "log w' = log w @ prologue v @ [Print (MsgNetworkFailed v (RequestException ne))]"
    by (cases rule: download_jdk_cases) (use a in auto)
  have "\<forall>p n. files w p = Some n \<longrightarrow> files w' p = Some n"
    using download_jdk_preserves [OF run] by blast
  with run l show "\<exists>w' evs. download_jdk env v w = (None, w') \<and> log w' = log w @ evs \<and>
         evs = prologue v @ [Print (MsgNetworkFailed v (RequestException ne))] \<and>
         marks evs = [Begin v, End NetworkError] \<and>
         (\<forall>p. Stat p \<notin> set evs) \<and>
         (\<forall>p n. files w p = Some n \<longrightarrow> files w' p = Some n)"
    by (simp add: marks_simps prologue_def)
next
  assume a: "download_jdk env v w = (x, w1) \<and> log w1 = log w @ evs1 \<and>
    End AlreadyPresent \<in> set (marks evs1)"
  then have run: "download_jdk env v w = (x, w1)" and l: "log w1 = log w @ evs1"
    and ap: "End AlreadyPresent \<in> set (marks evs1)" by simp_all
  show "\<exists>r. http_get env (api_url_of v) = Inr r \<and> raise_for_status r = None \<and>
         evs1 = [Mkdir (version_dir_of v), Print (MsgProcessing v (version_dir_of v)),
                 Print (MsgRequest (api_url_of v)), Get (api_url_of v),
                 Stat (destination_of v r), Print (MsgExists (destination_of v r))]"
  proof (cases "path_mkdir env True (files w) (version_dir_of v)")
    case (Inl e)
    from download_jdk_raised_log [OF run l Inl] ap show ?thesis
      by (simp add: marks_Nil)
  next
    case (Inr fs1)
    then show ?thesis
    proof (cases rule: download_jdk_cases)
      case (present r w')
      with run l have "evs1 = prologue v @
         [Stat (destination_of v r), Print (MsgExists (destination_of v r))]" by simp
      with present show ?thesis by (simp add: prologue_def)
    qed (use run l ap in \<open>auto simp: marks_simps split: if_splits\<close>)
  qed
qed

theorem resolution_precedes_the_existence_test_witness:
  "(can_make_dir env_offline (files w_present) (version_dir_of 8) \<and>
    http_get env_offline (api_url_of 8) = Inl ConnectionError) \<and>
   files w_present [''jdk8'', ''gzip''] = Some (File ''abc'') \<and>
   (\<exists>w'. download_jdk env_offline 8 w_present = (None, w') \<and>
         marks (log w') = [Begin 8, End NetworkError] \<and>
         files w' [''jdk8'', ''gzip''] = Some (File ''abc'')) \<and>
   (download_jdk env_query 8 w_present =
      (None, snd (download_jdk env_query 8 w_present)) \<and>
    log (snd (download_jdk env_query 8 w_present)) =
      log w_present @ log (snd (download_jdk env_query 8 w_present)) \<and>
    End AlreadyPresent \<in> set (marks (log (snd (download_jdk env_query 8 w_present))))) \<and>
   (\<exists>r. http_get env_query (api_url_of 8) = Inr r \<and> raise_for_status r = None)"
proof -
  have h1: "can_make_dir env_offline (files w_present) (version_dir_of 8) \<and>
    http_get env_offline (api_url_of 8) = Inl ConnectionError"
    by (simp add: can_make_dir_def w_present_def version_dir_8 env_offline_def)
  have f: "files w_present [''jdk8'', ''gzip''] = Some (File ''abc'')"
    by (simp add: w_present_def)
  have lw: "log w_present = []" by (simp add: w_present_def)
  have mk: "path_mkdir env_query True (files w_present) (version_dir_of 8) = Inr (files w_present)"
    by (simp add: w_present_def version_dir_8 path_mkdir_single)
  have get: "http_get env_query (api_url_of 8) = Inr resp_query"
    by (simp add: env_query_def)
  have ok: "raise_for_status resp_query = None"
    by (simp add: raise_for_status_def resp_query_def)
  have ex: "path_exists (files w_present) (destination_of 8 resp_query)"
    by (simp add: destination_query_8 w_present_def path_exists_def stat_def node_at_def)
  note run = download_jdk_present [OF mk get ok ex]
  have h2: "download_jdk env_query 8 w_present =
      (None, snd (download_jdk env_query 8 w_present)) \<and>
    log (snd (download_jdk env_query 8 w_present)) =
      log w_present @ log (snd (download_jdk env_query 8 w_present)) \<and>
    End AlreadyPresent \<in> set (marks (log (snd (download_jdk env_query 8 w_present))))"
    by (simp add: run lw marks_simps)
  from resolution_precedes_the_existence_test
    [of env_offline w_present 8 ConnectionError None w_present "[]"] h1 f lw
  have c1: "\<exists>w'. download_jdk env_offline 8 w_present = (None, w') \<and>
         marks (log w') = [Begin 8, End NetworkError] \<and>
         files w' [''jdk8'', ''gzip''] = Some (File ''abc'')"
    by auto
  from resolution_precedes_the_existence_test
    [of env_query w_present 8 ConnectionError None "snd (download_jdk env_query 8 w_present)"
        "log (snd (download_jdk env_query 8 w_present))"] h2
  have c2: "\<exists>r. http_get env_query (api_url_of 8) = Inr r \<and> raise_for_status r = None"
    by blast
  from h1 f c1 h2 c2 show ?thesis by blast
qed






end
